theory Spec2Isabelle
  imports Complex_Main
begin

section \<open>Scalars and vectors of the shading language\<close>

text \<open>
  The shaders compute on 32-bit floating-point scalars and on vectors of them. Two models
  of the scalars are used. The pixel shader is modelled on real numbers (\<open>float\<close>), every
  operation exact: the statements about it say which values are selected and how they are
  combined, not what a rounded result is. The two functions of the include file of which an
  exact returned value is stated, \<open>Attenuate\<close> and \<open>SpecDistribution\<close>, are modelled a second
  time on binary32 values, with rounding, underflow, overflow to infinity and NaN
  (\<open>Attenuate32\<close>, \<open>SpecDistribution32\<close>), and the statements about them are made there.
  A vector is a datatype with one field per component; the arithmetic operators act
  componentwise, as in the shading language, and a scalar operand of a vector operation is
  first replicated (\<open>splat3\<close>).
\<close>

type_synonym float = real

datatype float2 = float2 (x2: float) (y2: float)

datatype float3 = float3 (x3: float) (y3: float) (z3: float)

datatype float4 = float4 (x4: float) (y4: float) (z4: float) (w4: float)

instantiation float3 :: "{plus,minus,times,uminus,inverse}"
begin
definition plus_float3 :: "float3 \<Rightarrow> float3 \<Rightarrow> float3" where
  "plus_float3 a b = float3 (x3 a + x3 b) (y3 a + y3 b) (z3 a + z3 b)"
definition minus_float3 :: "float3 \<Rightarrow> float3 \<Rightarrow> float3" where
  "minus_float3 a b = float3 (x3 a - x3 b) (y3 a - y3 b) (z3 a - z3 b)"
definition times_float3 :: "float3 \<Rightarrow> float3 \<Rightarrow> float3" where
  "times_float3 a b = float3 (x3 a * x3 b) (y3 a * y3 b) (z3 a * z3 b)"
definition uminus_float3 :: "float3 \<Rightarrow> float3" where
  "uminus_float3 a = float3 (- x3 a) (- y3 a) (- z3 a)"
definition inverse_float3 :: "float3 \<Rightarrow> float3" where
  "inverse_float3 a = float3 (inverse (x3 a)) (inverse (y3 a)) (inverse (z3 a))"
definition divide_float3 :: "float3 \<Rightarrow> float3 \<Rightarrow> float3" where
  "divide_float3 a b = float3 (x3 a / x3 b) (y3 a / y3 b) (z3 a / z3 b)"
instance ..
end

definition splat3 :: "float \<Rightarrow> float3" where
  \<comment> \<open>the implicit promotion of a scalar to a three-component vector\<close>
  "splat3 s = float3 s s s"

definition saturate :: "float \<Rightarrow> float" where
  "saturate v = max 0 (min 1 v)"

definition saturate3 :: "float3 \<Rightarrow> float3" where
  "saturate3 v = float3 (saturate (x3 v)) (saturate (y3 v)) (saturate (z3 v))"

definition pow :: "float \<Rightarrow> float \<Rightarrow> float" where
  \<comment> \<open>the intrinsic \<open>pow\<close>; a negative base is outside what the shaders pass\<close>
  "pow b e = b powr e"

definition pow3 :: "float3 \<Rightarrow> float \<Rightarrow> float3" where
  "pow3 v e = float3 (pow (x3 v) e) (pow (y3 v) e) (pow (z3 v) e)"

definition dot :: "float3 \<Rightarrow> float3 \<Rightarrow> float" where
  "dot a b = x3 a * x3 b + y3 a * y3 b + z3 a * z3 b"

definition length3 :: "float3 \<Rightarrow> float" where
  "length3 v = sqrt (dot v v)"

definition normalize3 :: "float3 \<Rightarrow> float3" where
  "normalize3 v = v / splat3 (length3 v)"

definition distance :: "float3 \<Rightarrow> float3 \<Rightarrow> float" where
  "distance a b = length3 (b - a)"

definition cross :: "float3 \<Rightarrow> float3 \<Rightarrow> float3" where
  "cross a b = float3 (y3 a * z3 b - z3 a * y3 b)
                      (z3 a * x3 b - x3 a * z3 b)
                      (x3 a * y3 b - y3 a * x3 b)"

definition reflect :: "float3 \<Rightarrow> float3 \<Rightarrow> float3" where
  \<comment> \<open>\<open>reflect(i, n) = i - 2 * n * dot(i, n)\<close>\<close>
  "reflect i n = i - splat3 2 * n * splat3 (dot i n)"

definition lerp3 :: "float3 \<Rightarrow> float3 \<Rightarrow> float3 \<Rightarrow> float3" where
  \<comment> \<open>\<open>lerp(a, b, s) = a * (1 - s) + b * s\<close>, componentwise\<close>
  "lerp3 a b s = a * (splat3 1 - s) + b * s"

definition mul3x3 :: "float3 \<Rightarrow> float3 \<times> float3 \<times> float3 \<Rightarrow> float3" where
  \<comment> \<open>\<open>mul(v, m)\<close>: the row vector \<open>v\<close> times the matrix whose rows are given\<close>
  "mul3x3 v m = (case m of (r0, r1, r2) \<Rightarrow>
     splat3 (x3 v) * r0 + splat3 (y3 v) * r1 + splat3 (z3 v) * r2)"

section \<open>The shader include file: constants, lights and the shading functions\<close>

definition LIGHT_TYPE_DIRECTIONAL :: int where "LIGHT_TYPE_DIRECTIONAL = 0"
definition LIGHT_TYPE_POINT :: int where "LIGHT_TYPE_POINT = 1"
definition LIGHT_TYPE_SPOT :: int where "LIGHT_TYPE_SPOT = 2"

definition F0_NON_METAL :: float where "F0_NON_METAL = 0.04"
definition MIN_ROUGHNESS :: float where "MIN_ROUGHNESS = 0.0000001"
definition PI :: float where "PI = 3.14159265359"

text \<open>
  The light record of the include file. Its padding field is never read and is left
  out. The pixel shader also reads a member \<open>castsShadows\<close> of each light, used only
  as a condition; the include file that declares it is not among the sources, so the
  field is added here as a truth value. \<open>range_l\<close> is the member \<open>range\<close>. The
  functions below are those that \<open>ColorFromLight\<close> and the pixel shader call; \<open>Specular\<close>
  and the vertex structures, which neither uses, are left out. \<open>Attenuate\<close> and
  \<open>SpecDistribution\<close> are here the exact functions, as \<open>ColorFromLight\<close> calls them; the
  values they return on binary32 are those of \<open>Attenuate32\<close> and \<open>SpecDistribution32\<close>
  below, and nothing is stated of the exact ones.
\<close>

record Light =
  type :: int
  direction :: float3
  range_l :: float
  position :: float3
  intensity :: float
  color :: float3
  spotFalloff :: float
  castsShadows :: bool

definition LightenToGamma :: "float3 \<Rightarrow> float3" where
  "LightenToGamma c = pow3 c (1 / 2.2)"

definition DarkenToGamma :: "float3 \<Rightarrow> float3" where
  "DarkenToGamma c = pow3 c 2.2"

definition Diffuse :: "float3 \<Rightarrow> float3 \<Rightarrow> float3" where
  "Diffuse dirToLight normal = splat3 (saturate (dot normal dirToLight))"

definition Attenuate :: "Light \<Rightarrow> float3 \<Rightarrow> float" where
  "Attenuate light worldPos =
     (let dist = distance (position light) worldPos;
          att = saturate (1 - (dist * dist / (range_l light * range_l light)))
      in att * att)"

definition DiffuseEnergyConserve :: "float3 \<Rightarrow> float3 \<Rightarrow> float \<Rightarrow> float3" where
  "DiffuseEnergyConserve diffuse specular metalness =
     diffuse * ((splat3 1 - saturate3 specular) * splat3 (1 - metalness))"

definition SpecDistribution :: "float3 \<Rightarrow> float3 \<Rightarrow> float \<Rightarrow> float" where
  "SpecDistribution n h roughness =
     (let NdotH = saturate (dot n h);
          NdotH2 = NdotH * NdotH;
          a = roughness * roughness;
          a2 = max (a * a) MIN_ROUGHNESS;
          denomToSquare = NdotH2 * (a2 - 1) + 1
      in a2 / (PI * denomToSquare * denomToSquare))"

definition Fresnel :: "float3 \<Rightarrow> float3 \<Rightarrow> float3 \<Rightarrow> float3" where
  "Fresnel v h f0 =
     (let VdotH = saturate (dot v h)
      in f0 + (splat3 1 - f0) * splat3 (pow (1 - VdotH) 5))"

definition GeometricShadowing :: "float3 \<Rightarrow> float3 \<Rightarrow> float \<Rightarrow> float" where
  "GeometricShadowing n v roughness =
     (let a = roughness * roughness;
          k = a / 2;
          NdotV = saturate (dot n v)
      in NdotV / (NdotV * (1 - k) + k))"

definition MicrofacetBRDF :: "float3 \<Rightarrow> float3 \<Rightarrow> float3 \<Rightarrow> float \<Rightarrow> float3 \<Rightarrow> float3" where
  "MicrofacetBRDF n l v roughness specColor =
     (let h = normalize3 (v + l);
          D = SpecDistribution n h roughness;
          F = Fresnel v h specColor;
          G = GeometricShadowing n v roughness * GeometricShadowing n l roughness
      in (splat3 D * F * splat3 G) / splat3 (4 * max (dot n v) (dot n l)))"

definition ColorFromLight ::
  "Light \<Rightarrow> float3 \<Rightarrow> float3 \<Rightarrow> float3 \<Rightarrow> float3 \<Rightarrow> float3 \<Rightarrow> float \<Rightarrow> float \<Rightarrow> float3" where
  "ColorFromLight light normal worldPos view surfaceColor specularColor roughness metallic =
     (if type light = LIGHT_TYPE_DIRECTIONAL then
        (let dirToLight = normalize3 (- direction light);
             diffuse = Diffuse dirToLight normal;
             specular = MicrofacetBRDF normal dirToLight view roughness specularColor;
             diffuse = DiffuseEnergyConserve diffuse specular metallic
         in (diffuse * surfaceColor + specular) * splat3 (intensity light) * color light)
      else if type light = LIGHT_TYPE_POINT then
        (let dirToLight = normalize3 (position light - worldPos);
             diffuse = Diffuse dirToLight normal;
             specular = MicrofacetBRDF normal dirToLight view roughness specularColor;
             diffuse = DiffuseEnergyConserve diffuse specular metallic
         in (diffuse * surfaceColor + specular) * splat3 (intensity light) * color light
              * splat3 (Attenuate light worldPos))
      else float3 0 0 0)"

section \<open>The pixel shader\<close>

definition MAX_NUM_LIGHTS :: int where "MAX_NUM_LIGHTS = 6"

text \<open>
  The constant buffer \<open>ExternalData\<close>. The array \<open>lights\<close>, of \<open>MAX_NUM_LIGHTS\<close>
  entries in the shader, is a list; the shader reads it at the indices below the number
  of lights it iterates, which is at most \<open>MAX_NUM_LIGHTS\<close>.
\<close>

record ExternalData =
  colorTint :: float4
  roughnessFlat :: float
  cameraPosition :: float3
  lights :: "Light list"
  uvScale :: float
  metallicFlat :: float
  uvOffset :: float2
  skyMipCount :: int
  lightCount :: int
  shadowCountCascade :: int
  shadowCountWorld :: int
  indirectLightIntensity :: float

text \<open>
  The bound textures, each with the sampling call the shader makes on it:
  \<open>Albedo\<close>, \<open>NormalMap\<close> (the \<open>rgb\<close> of a sample at a texture coordinate),
  \<open>RoughnessMap\<close>, \<open>MetallicMap\<close> (the \<open>r\<close> of a sample), the two shadow map arrays
  (a comparison sample at a location and a depth) and the sky cube map (the \<open>rgb\<close> of a
  sample along a direction at a mip level). What a texture holds is an input.
\<close>

record Resources =
  Albedo :: "float2 \<Rightarrow> float3"
  NormalMap :: "float2 \<Rightarrow> float3"
  RoughnessMap :: "float2 \<Rightarrow> float"
  MetallicMap :: "float2 \<Rightarrow> float"
  ShadowMapsCascade :: "float3 \<Rightarrow> float \<Rightarrow> float"
  ShadowMapsWorld :: "float3 \<Rightarrow> float \<Rightarrow> float"
  SkyCubeMap :: "float3 \<Rightarrow> float \<Rightarrow> float3"

text \<open>
  The pixel shader includes a file that is not among the sources. What the shader uses
  of it and cannot be read off the shader itself is a parameter: the two array bounds,
  the function that selects the cascade by distance, and the table of the six cube-face
  directions.
\<close>

record Includes =
  MAX_NUM_SHADOW_CASCADES :: int
  MAX_NUM_SHADOW_MAPS :: int
  CalcCascadeIndex :: "float3 \<Rightarrow> int \<Rightarrow> float \<Rightarrow> int"
  cubeFaceDirections :: "float3 list"

text \<open>
  The input of the pixel shader, with the members the shader reads. The two arrays of
  shadow-space positions are functions of the index.
\<close>

record VertexToPixel =
  screenPosition :: float4
  uv :: float2
  normal :: float3
  tangent :: float3
  worldPosition :: float3
  shadowCascadePositions :: "int \<Rightarrow> float4"
  shadowWorldPositions :: "nat \<Rightarrow> float4"

text \<open>The contents of the shader's local arrays before the shader writes them.\<close>

record Uninitialised =
  depthFromWorldLights0 :: "nat \<Rightarrow> float"
  shadowWorldUVs0 :: "nat \<Rightarrow> float2"
  shadowAmountWorld0 :: "nat \<Rightarrow> float"

subsection \<open>Branch-free comparisons\<close>

definition when_lt :: "float \<Rightarrow> float \<Rightarrow> float" where
  \<comment> \<open>Modelled from the spec: \<open>when_lt\<close> is declared in the include file that is not
      among the sources. It stands for the comparison \<open><\<close> of the condition the shader
      keeps as a comment above its use: 1 where the comparison holds, 0 elsewhere.\<close>
  "when_lt a b = (if a < b then 1 else 0)"

definition when_gt :: "float \<Rightarrow> float \<Rightarrow> float" where
  \<comment> \<open>Modelled from the spec: \<open>when_gt\<close> is declared in the include file that is not
      among the sources; it stands for \<open>>\<close> in the same condition.\<close>
  "when_gt a b = (if a > b then 1 else 0)"

definition when_lt4 :: "float4 \<Rightarrow> float4 \<Rightarrow> float4" where
  \<comment> \<open>\<open>when_lt\<close> on four-component vectors, componentwise\<close>
  "when_lt4 a b = float4 (when_lt (x4 a) (x4 b)) (when_lt (y4 a) (y4 b))
                         (when_lt (z4 a) (z4 b)) (when_lt (w4 a) (w4 b))"

definition when_gt4 :: "float4 \<Rightarrow> float4 \<Rightarrow> float4" where
  \<comment> \<open>\<open>when_gt\<close> on four-component vectors, componentwise\<close>
  "when_gt4 a b = float4 (when_gt (x4 a) (x4 b)) (when_gt (y4 a) (y4 b))
                         (when_gt (z4 a) (z4 b)) (when_gt (w4 a) (w4 b))"

definition or_all :: "float4 \<Rightarrow> float4 \<Rightarrow> float" where
  \<comment> \<open>Modelled from the spec: \<open>or_all\<close> is declared in the include file that is not
      among the sources. It stands for the disjunction of all the comparisons of the
      commented condition: 1 when a component of either vector is set, 0 otherwise.\<close>
  "or_all a b =
     (if x4 a \<noteq> 0 \<or> y4 a \<noteq> 0 \<or> z4 a \<noteq> 0 \<or> w4 a \<noteq> 0 \<or>
         x4 b \<noteq> 0 \<or> y4 b \<noteq> 0 \<or> z4 b \<noteq> 0 \<or> w4 b \<noteq> 0 then 1 else 0)"

definition int_of_float :: "float \<Rightarrow> int" where
  \<comment> \<open>the conversion of a float to an integer, towards zero\<close>
  "int_of_float r = (if 0 \<le> r then \<lfloor>r\<rfloor> else \<lceil>r\<rceil>)"

subsection \<open>Surface values (lines 62 to 112 of the shader)\<close>

definition main_normal0 :: "VertexToPixel \<Rightarrow> float3" where
  "main_normal0 input = normalize3 (normal input)"

definition main_tangent :: "VertexToPixel \<Rightarrow> float3" where
  "main_tangent input =
     (let N = main_normal0 input;
          T = normalize3 (tangent input)
      in normalize3 (T - N * splat3 (dot T N)))"

definition main_uv :: "ExternalData \<Rightarrow> VertexToPixel \<Rightarrow> float2" where
  "main_uv cb input =
     (let uv1 = float2 (x2 (uv input) / uvScale cb) (y2 (uv input) / uvScale cb);
          uv2 = float2 (x2 uv1 - x2 (uvOffset cb)) (y2 uv1);
          uv3 = float2 (x2 uv2) (y2 uv2 + y2 (uvOffset cb))
      in uv3)"

definition main_positionToCam :: "ExternalData \<Rightarrow> VertexToPixel \<Rightarrow> float3" where
  "main_positionToCam cb input = cameraPosition cb - worldPosition input"

definition main_view :: "ExternalData \<Rightarrow> VertexToPixel \<Rightarrow> float3" where
  "main_view cb input = normalize3 (main_positionToCam cb input)"

definition main_incident :: "ExternalData \<Rightarrow> VertexToPixel \<Rightarrow> float3" where
  "main_incident cb input = - main_view cb input"

definition main_normal :: "Resources \<Rightarrow> ExternalData \<Rightarrow> VertexToPixel \<Rightarrow> float3" where
  "main_normal res cb input =
     (let unpackedNormal = NormalMap res (main_uv cb input) * splat3 2 - splat3 1;
          bitangent = cross (main_normal0 input) (main_tangent input);
          tbn = (main_tangent input, bitangent, main_normal0 input)
      in normalize3 (mul3x3 unpackedNormal tbn))"

definition main_albedo :: "Resources \<Rightarrow> ExternalData \<Rightarrow> VertexToPixel \<Rightarrow> float3" where
  "main_albedo res cb input = DarkenToGamma (Albedo res (main_uv cb input))"

definition main_roughness :: "Resources \<Rightarrow> ExternalData \<Rightarrow> VertexToPixel \<Rightarrow> float" where
  "main_roughness res cb input =
     (let roughness = roughnessFlat cb;
          roughness = (if roughnessFlat cb = - 1
                       then RoughnessMap res (main_uv cb input) else roughness)
      in max roughness MIN_ROUGHNESS)"

definition main_metallic :: "Resources \<Rightarrow> ExternalData \<Rightarrow> VertexToPixel \<Rightarrow> float" where
  "main_metallic res cb input =
     (let metallic = metallicFlat cb
      in if metallicFlat cb = - 1 then MetallicMap res (main_uv cb input) else metallic)"

definition main_specularColor :: "Resources \<Rightarrow> ExternalData \<Rightarrow> VertexToPixel \<Rightarrow> float3" where
  "main_specularColor res cb input =
     lerp3 (splat3 F0_NON_METAL) (main_albedo res cb input) (splat3 (main_metallic res cb input))"

definition main_reflectColor :: "Resources \<Rightarrow> ExternalData \<Rightarrow> VertexToPixel \<Rightarrow> float3" where
  "main_reflectColor res cb input =
     (let reflectDir = reflect (main_incident cb input) (main_normal res cb input)
      in SkyCubeMap res reflectDir
           (pow (main_roughness res cb input) 0.3 * of_int (skyMipCount cb - 1)))"

definition main_indirectDiffuse :: "Resources \<Rightarrow> ExternalData \<Rightarrow> VertexToPixel \<Rightarrow> float3" where
  "main_indirectDiffuse res cb input =
     (let indirectDiffuse = SkyCubeMap res (main_normal res cb input) (of_int (skyMipCount cb - 1))
      in DiffuseEnergyConserve indirectDiffuse (main_specularColor res cb input)
           (main_metallic res cb input))"

subsection \<open>Shadow maps (lines 115 to 170)\<close>

definition numLights :: "ExternalData \<Rightarrow> int" where
  "numLights cb = min (lightCount cb) MAX_NUM_LIGHTS"

definition numShadowCascade :: "Includes \<Rightarrow> ExternalData \<Rightarrow> int" where
  "numShadowCascade inc cb = min (shadowCountCascade cb) (MAX_NUM_SHADOW_CASCADES inc)"

definition numShadowWorld :: "Includes \<Rightarrow> ExternalData \<Rightarrow> int" where
  "numShadowWorld inc cb = min (shadowCountWorld cb) (MAX_NUM_SHADOW_MAPS inc)"

definition shadowUVs :: "float4 \<Rightarrow> float2" where
  \<comment> \<open>the perspective divide, the remap of [-1, 1] to [0, 1] and the flip of y\<close>
  "shadowUVs p =
     (let uvs = float2 (x4 p / w4 p * 0.5 + 0.5) (y4 p / w4 p * 0.5 + 0.5)
      in float2 (x2 uvs) (1 - y2 uvs))"

definition main_cascadeIndex0 :: "Includes \<Rightarrow> ExternalData \<Rightarrow> VertexToPixel \<Rightarrow> int" where
  \<comment> \<open>line 120: the cascade selected by the distance from the camera\<close>
  "main_cascadeIndex0 inc cb input =
     CalcCascadeIndex inc (main_positionToCam cb input) (numShadowCascade inc cb) 125"

definition main_cascadeIndex :: "Includes \<Rightarrow> ExternalData \<Rightarrow> VertexToPixel \<Rightarrow> int" where
  \<comment> \<open>lines 126 to 134: the cascade after the look at the borders\<close>
  "main_cascadeIndex inc cb input =
     (let cascadeIndex = main_cascadeIndex0 inc cb input;
          shadowCascadeUVs = shadowUVs (shadowCascadePositions input cascadeIndex);
          lessThan = when_lt4 (float4 (x2 shadowCascadeUVs) (y2 shadowCascadeUVs) 0 0)
                              (float4 0.01 0.01 0 0);
          greatThan = when_gt4 (float4 (x2 shadowCascadeUVs) (y2 shadowCascadeUVs) 0 0)
                               (float4 0.99 0.99 0 0);
          validIndex = when_lt (of_int (cascadeIndex + 1)) (of_int (numShadowCascade inc cb))
      in int_of_float (of_int cascadeIndex + 1 * or_all lessThan greatThan * validIndex))"

definition main_shadowCascadeUVs :: "Includes \<Rightarrow> ExternalData \<Rightarrow> VertexToPixel \<Rightarrow> float2" where
  \<comment> \<open>lines 135 and 136\<close>
  "main_shadowCascadeUVs inc cb input =
     shadowUVs (shadowCascadePositions input (main_cascadeIndex inc cb input))"

definition main_depthFromCascadeLight :: "Includes \<Rightarrow> ExternalData \<Rightarrow> VertexToPixel \<Rightarrow> float" where
  \<comment> \<open>line 139\<close>
  "main_depthFromCascadeLight inc cb input =
     (let p = shadowCascadePositions input (main_cascadeIndex inc cb input)
      in z4 p / w4 p)"

definition main_shadowAmountCascade ::
  "Includes \<Rightarrow> Resources \<Rightarrow> ExternalData \<Rightarrow> VertexToPixel \<Rightarrow> float" where
  \<comment> \<open>lines 145 and 146\<close>
  "main_shadowAmountCascade inc res cb input =
     (let sampleAt = float3 (x2 (main_shadowCascadeUVs inc cb input))
                            (y2 (main_shadowCascadeUVs inc cb input))
                            (of_int (main_cascadeIndex inc cb input))
      in ShadowMapsCascade res sampleAt (main_depthFromCascadeLight inc cb input))"

primrec worldPositionsLoop ::
  "(nat \<Rightarrow> float4) \<Rightarrow> (nat \<Rightarrow> float) \<times> (nat \<Rightarrow> float2) \<Rightarrow> nat
     \<Rightarrow> (nat \<Rightarrow> float) \<times> (nat \<Rightarrow> float2)" where
  \<comment> \<open>lines 153 to 160: the arrays \<open>depthFromWorldLights\<close> and \<open>shadowWorldUVs\<close> after the
      given number of iterations\<close>
  "worldPositionsLoop pos arrays 0 = arrays"
| "worldPositionsLoop pos arrays (Suc i) =
     (case worldPositionsLoop pos arrays i of (depthFromWorldLights, shadowWorldUVs) \<Rightarrow>
        (depthFromWorldLights(i := z4 (pos i) / w4 (pos i)),
         shadowWorldUVs(i := shadowUVs (pos i))))"

primrec worldSamplesLoop ::
  "Resources \<Rightarrow> (nat \<Rightarrow> float) \<times> (nat \<Rightarrow> float2) \<Rightarrow> (nat \<Rightarrow> float) \<Rightarrow> nat \<Rightarrow> (nat \<Rightarrow> float)" where
  \<comment> \<open>lines 165 to 170: the array \<open>shadowAmountWorld\<close> after the given number of
      iterations\<close>
  "worldSamplesLoop res arrays shadowAmountWorld 0 = shadowAmountWorld"
| "worldSamplesLoop res arrays shadowAmountWorld (Suc i) =
     (let sampleAt = float3 (x2 (snd arrays i)) (y2 (snd arrays i)) (of_nat i)
      in (worldSamplesLoop res arrays shadowAmountWorld i)
           (i := ShadowMapsWorld res sampleAt (fst arrays i)))"

definition main_shadowAmountWorld ::
  "Includes \<Rightarrow> Resources \<Rightarrow> Uninitialised \<Rightarrow> ExternalData \<Rightarrow> VertexToPixel \<Rightarrow> nat \<Rightarrow> float" where
  "main_shadowAmountWorld inc res un cb input =
     (let n = nat (numShadowWorld inc cb);
          arrays = worldPositionsLoop (shadowWorldPositions input)
                     (depthFromWorldLights0 un, shadowWorldUVs0 un) n
      in worldSamplesLoop res arrays (shadowAmountWorld0 un) n)"

subsection \<open>The lights (lines 175 to 223)\<close>

definition main_surfaceColor :: "Resources \<Rightarrow> ExternalData \<Rightarrow> VertexToPixel \<Rightarrow> float3" where
  "main_surfaceColor res cb input =
     main_albedo res cb input
       * float3 (x4 (colorTint cb)) (y4 (colorTint cb)) (z4 (colorTint cb))"

primrec cubeFaceLoop :: "float3 list \<Rightarrow> float3 \<Rightarrow> nat \<Rightarrow> float \<times> nat" where
  \<comment> \<open>lines 188 to 198: \<open>maxDot\<close> and \<open>directionIndex\<close> after the given number of
      iterations; the first argument is the table of face directions, the second the
      normalized direction from the light to the pixel\<close>
  "cubeFaceLoop faces d 0 = (0, 0)"
| "cubeFaceLoop faces d (Suc j) =
     (case cubeFaceLoop faces d j of (maxDot, directionIndex) \<Rightarrow>
        (let dotProduct = dot d (faces ! j)
         in (max dotProduct maxDot, if dotProduct \<ge> maxDot then j else directionIndex)))"

definition directionIndex_of :: "float3 list \<Rightarrow> float3 \<Rightarrow> Light \<Rightarrow> nat" where
  \<comment> \<open>\<open>directionIndex\<close> after the loop of line 193, which runs its six iterations when
      the light casts shadows and none otherwise\<close>
  "directionIndex_of faces worldPos light =
     snd (cubeFaceLoop faces (normalize3 (worldPos - position light))
            (if castsShadows light then 6 else 0))"

definition lightBody ::
  "float3 list \<Rightarrow> (nat \<Rightarrow> float) \<Rightarrow> float \<Rightarrow> (Light \<Rightarrow> float3) \<Rightarrow> float3
     \<Rightarrow> Light \<Rightarrow> float3 \<times> nat \<Rightarrow> float3 \<times> nat" where
  \<comment> \<open>lines 183 to 222: one iteration of the loop over the lights, on \<open>finalColor\<close> and
      \<open>shadowIndex\<close>. \<open>unshadowed\<close> is the call of \<open>ColorFromLight\<close> on the surface values,
      the same in the three cases.\<close>
  "lightBody faces shadowAmountWorld shadowAmountCascade unshadowed worldPos light st =
     (case st of (finalColor, shadowIndex) \<Rightarrow>
        if type light = LIGHT_TYPE_POINT then
          (let unshadowedColor = unshadowed light;
               directionIndex = directionIndex_of faces worldPos light
           in (finalColor + unshadowedColor
                 * splat3 (if castsShadows light
                           then shadowAmountWorld (shadowIndex + directionIndex) else 1),
               if castsShadows light then shadowIndex + 6 else shadowIndex))
        else if type light = LIGHT_TYPE_SPOT then
          (finalColor + unshadowed light
             * splat3 (if castsShadows light then shadowAmountWorld shadowIndex else 1),
           if castsShadows light then shadowIndex + 1 else shadowIndex)
        else if type light = LIGHT_TYPE_DIRECTIONAL then
          (finalColor + unshadowed light
             * splat3 (if castsShadows light then shadowAmountCascade else 1),
           shadowIndex)
        else (finalColor, shadowIndex))"

primrec lightLoop ::
  "(Light \<Rightarrow> float3 \<times> nat \<Rightarrow> float3 \<times> nat) \<Rightarrow> Light list \<Rightarrow> nat \<Rightarrow> float3 \<times> nat" where
  \<comment> \<open>lines 176 to 223: \<open>finalColor\<close> and \<open>shadowIndex\<close> after the given number of
      iterations of the loop over the lights\<close>
  "lightLoop body ls 0 = (float3 0 0 0, 0)"
| "lightLoop body ls (Suc i) = body (ls ! i) (lightLoop body ls i)"

definition main_unshadowed ::
  "Resources \<Rightarrow> ExternalData \<Rightarrow> VertexToPixel \<Rightarrow> Light \<Rightarrow> float3" where
  \<comment> \<open>the call of \<open>ColorFromLight\<close> that lines 187, 207 and 214 make\<close>
  "main_unshadowed res cb input light =
     ColorFromLight light (main_normal res cb input) (worldPosition input) (main_view cb input)
       (main_surfaceColor res cb input) (main_specularColor res cb input)
       (main_roughness res cb input) (main_metallic res cb input)"

definition main_lightBody ::
  "Includes \<Rightarrow> Resources \<Rightarrow> Uninitialised \<Rightarrow> ExternalData \<Rightarrow> VertexToPixel
     \<Rightarrow> Light \<Rightarrow> float3 \<times> nat \<Rightarrow> float3 \<times> nat" where
  "main_lightBody inc res un cb input =
     lightBody (cubeFaceDirections inc) (main_shadowAmountWorld inc res un cb input)
       (main_shadowAmountCascade inc res cb input) (main_unshadowed res cb input)
       (worldPosition input)"

definition main_lightLoop ::
  "Includes \<Rightarrow> Resources \<Rightarrow> Uninitialised \<Rightarrow> ExternalData \<Rightarrow> VertexToPixel
     \<Rightarrow> nat \<Rightarrow> float3 \<times> nat" where
  "main_lightLoop inc res un cb input i =
     lightLoop (main_lightBody inc res un cb input) (lights cb) i"

subsection \<open>The final colour (lines 225 to 234)\<close>

definition main :: "Includes \<Rightarrow> Resources \<Rightarrow> Uninitialised \<Rightarrow> ExternalData \<Rightarrow> VertexToPixel \<Rightarrow> float4" where
  "main inc res un cb input =
     (let finalColor = fst (main_lightLoop inc res un cb input (nat (numLights cb)));
          finalColor = LightenToGamma finalColor;
          finalColor = finalColor
             + main_indirectDiffuse res cb input
               * LightenToGamma (main_surfaceColor res cb input)
               * splat3 (indirectLightIntensity cb);
          finalColor = lerp3 finalColor (main_reflectColor res cb input)
             (Fresnel (main_view cb input) (main_normal res cb input)
                (main_specularColor res cb input))
      in float4 (x3 finalColor) (y3 finalColor) (z3 finalColor) 1)"

section \<open>Binary32 arithmetic\<close>

text \<open>
  A finite binary32 value is a real \<open>m * 2 ^ e\<close> with \<open>\<bar>m\<bar> < 2 ^ 24\<close> and \<open>- 149 \<le> e\<close>, of
  magnitude below \<open>2 ^ 128\<close>. \<open>rne\<close> rounds a real to the nearest multiple of the quantum
  of its binade, a tie going to the even multiple; below \<open>2 ^ (- 126)\<close> the quantum stays
  \<open>2 ^ (- 149)\<close> (gradual underflow). \<open>pow2 e\<close> is \<open>2 ^ e\<close> for an integer \<open>e\<close> of either sign.
\<close>

definition pow2 :: "int \<Rightarrow> real" where
  "pow2 e = 2 powr (of_int e)"

definition round_half_even :: "real \<Rightarrow> int" where
  "round_half_even y =
     (let f = \<lfloor>y\<rfloor>; d = y - of_int f
      in if d < 1 / 2 then f else if 1 / 2 < d then f + 1 else if even f then f else f + 1)"

definition binade :: "real \<Rightarrow> int" where
  "binade x = \<lfloor>log 2 \<bar>x\<bar>\<rfloor>"

definition quantum :: "real \<Rightarrow> int" where
  "quantum x = max (binade x - 23) (- 149)"

definition rne :: "real \<Rightarrow> real" where
  "rne x = (if x = 0 then 0
            else of_int (round_half_even (x / pow2 (quantum x))) * pow2 (quantum x))"

text \<open>
  A \<open>float32\<close> is a finite value, an infinity or NaN. \<open>round32\<close> is the rounding with
  overflow: a real whose rounded magnitude reaches \<open>2 ^ 128\<close> becomes an infinity. Each
  operation computes the exact result of its operands and rounds it once. The two zeros are
  one value: \<open>Attenuate\<close> divides by a square and \<open>SpecDistribution\<close> by a product of \<open>PI\<close>
  and a square, neither of which is a negative zero, so the sign of a zero never decides a
  result. A comparison with NaN is false. \<open>fmax\<close> and \<open>saturate32\<close> are the intrinsics
  \<open>max\<close> and \<open>saturate\<close>: \<open>max\<close> of NaN and a number is the number, \<open>saturate\<close> of NaN is 0.
  \<open>Finite x\<close> is written for every real \<open>x\<close>; the results of the operations are always
  representable, and the statements below hold for all operands.
\<close>

datatype float32 = Finite real | PosInf | NegInf | NaN

definition round32 :: "real \<Rightarrow> float32" where
  "round32 x = (let r = rne x
                in if 2 ^ 128 \<le> r then PosInf else if r \<le> - (2 ^ 128) then NegInf else Finite r)"

fun fneg :: "float32 \<Rightarrow> float32" where
  "fneg (Finite x) = Finite (- x)"
| "fneg PosInf = NegInf"
| "fneg NegInf = PosInf"
| "fneg NaN = NaN"

fun fadd :: "float32 \<Rightarrow> float32 \<Rightarrow> float32" where
  "fadd NaN b = NaN"
| "fadd a NaN = NaN"
| "fadd (Finite x) (Finite y) = round32 (x + y)"
| "fadd PosInf NegInf = NaN"
| "fadd NegInf PosInf = NaN"
| "fadd PosInf b = PosInf"
| "fadd a PosInf = PosInf"
| "fadd NegInf b = NegInf"
| "fadd a NegInf = NegInf"

definition fsub :: "float32 \<Rightarrow> float32 \<Rightarrow> float32" where
  "fsub a b = fadd a (fneg b)"

fun fmul :: "float32 \<Rightarrow> float32 \<Rightarrow> float32" where
  "fmul NaN b = NaN"
| "fmul a NaN = NaN"
| "fmul (Finite x) (Finite y) = round32 (x * y)"
| "fmul (Finite x) PosInf = (if x = 0 then NaN else if 0 < x then PosInf else NegInf)"
| "fmul (Finite x) NegInf = (if x = 0 then NaN else if 0 < x then NegInf else PosInf)"
| "fmul PosInf (Finite y) = (if y = 0 then NaN else if 0 < y then PosInf else NegInf)"
| "fmul NegInf (Finite y) = (if y = 0 then NaN else if 0 < y then NegInf else PosInf)"
| "fmul PosInf PosInf = PosInf"
| "fmul NegInf NegInf = PosInf"
| "fmul PosInf NegInf = NegInf"
| "fmul NegInf PosInf = NegInf"

fun fdiv :: "float32 \<Rightarrow> float32 \<Rightarrow> float32" where
  "fdiv NaN b = NaN"
| "fdiv a NaN = NaN"
| "fdiv (Finite x) (Finite y) =
     (if y = 0 then (if x = 0 then NaN else if 0 < x then PosInf else NegInf)
      else round32 (x / y))"
| "fdiv (Finite x) b = Finite 0"
| "fdiv PosInf (Finite y) = (if y < 0 then NegInf else PosInf)"
| "fdiv NegInf (Finite y) = (if y < 0 then PosInf else NegInf)"
| "fdiv a b = NaN"

fun fsqrt :: "float32 \<Rightarrow> float32" where
  "fsqrt (Finite x) = (if x < 0 then NaN else round32 (sqrt x))"
| "fsqrt PosInf = PosInf"
| "fsqrt NegInf = NaN"
| "fsqrt NaN = NaN"

fun flt :: "float32 \<Rightarrow> float32 \<Rightarrow> bool" where
  "flt NaN b = False"
| "flt a NaN = False"
| "flt (Finite x) (Finite y) = (x < y)"
| "flt PosInf b = False"
| "flt a PosInf = True"
| "flt NegInf NegInf = False"
| "flt NegInf b = True"
| "flt a NegInf = False"

fun fle :: "float32 \<Rightarrow> float32 \<Rightarrow> bool" where
  "fle NaN b = False"
| "fle a NaN = False"
| "fle (Finite x) (Finite y) = (x \<le> y)"
| "fle a PosInf = True"
| "fle PosInf b = False"
| "fle NegInf b = True"
| "fle a NegInf = False"

fun fmax :: "float32 \<Rightarrow> float32 \<Rightarrow> float32" where
  "fmax NaN b = b"
| "fmax a NaN = a"
| "fmax a b = (if flt a b then b else a)"

fun saturate32 :: "float32 \<Rightarrow> float32" where
  "saturate32 (Finite x) = Finite (max 0 (min 1 x))"
| "saturate32 PosInf = Finite 1"
| "saturate32 NegInf = Finite 0"
| "saturate32 NaN = Finite 0"

fun is_finite32 :: "float32 \<Rightarrow> bool" where
  "is_finite32 (Finite x) = True"
| "is_finite32 a = False"

datatype float3_32 = float3_32 (x32: float32) (y32: float32) (z32: float32)

definition vsub32 :: "float3_32 \<Rightarrow> float3_32 \<Rightarrow> float3_32" where
  "vsub32 a b = float3_32 (fsub (x32 a) (x32 b)) (fsub (y32 a) (y32 b)) (fsub (z32 a) (z32 b))"

definition dot32 :: "float3_32 \<Rightarrow> float3_32 \<Rightarrow> float32" where
  "dot32 a b = fadd (fadd (fmul (x32 a) (x32 b)) (fmul (y32 a) (y32 b))) (fmul (z32 a) (z32 b))"

definition length32 :: "float3_32 \<Rightarrow> float32" where
  "length32 v = fsqrt (dot32 v v)"

definition distance32 :: "float3_32 \<Rightarrow> float3_32 \<Rightarrow> float32" where
  "distance32 a b = length32 (vsub32 b a)"

section \<open>\<open>Attenuate\<close> and \<open>SpecDistribution\<close> on binary32\<close>

text \<open>
  The constants are the binary32 values nearest their decimal literals. \<open>Light32\<close> is the
  light structure of the include file with binary32 members. \<open>distance\<close> is the length of
  the difference, and \<open>dot\<close> sums the three products from the left.
\<close>

definition MIN_ROUGHNESS32 :: float32 where
  "MIN_ROUGHNESS32 = round32 0.0000001"

definition PI32 :: float32 where
  "PI32 = round32 3.14159265359"

record Light32 =
  type32 :: int
  direction32 :: float3_32
  range32 :: float32
  position32 :: float3_32
  intensity32 :: float32
  color32 :: float3_32
  spotFalloff32 :: float32

definition Attenuate32 :: "Light32 \<Rightarrow> float3_32 \<Rightarrow> float32" where
  "Attenuate32 light worldPos =
     (let dist = distance32 (position32 light) worldPos;
          att = saturate32 (fsub (Finite 1)
                  (fdiv (fmul dist dist) (fmul (range32 light) (range32 light))))
      in fmul att att)"

text \<open>
  \<open>SpecDistribution\<close> is split at its local variables, so that the clamped \<open>a2\<close> and
  the denominator of the final division can be named in statements.
\<close>

definition SpecDistribution32_a2 :: "float32 \<Rightarrow> float32" where
  "SpecDistribution32_a2 roughness =
     (let a = fmul roughness roughness in fmax (fmul a a) MIN_ROUGHNESS32)"

definition SpecDistribution32_denomToSquare :: "float3_32 \<Rightarrow> float3_32 \<Rightarrow> float32 \<Rightarrow> float32" where
  "SpecDistribution32_denomToSquare n h roughness =
     (let NdotH = saturate32 (dot32 n h);
          NdotH2 = fmul NdotH NdotH;
          a2 = SpecDistribution32_a2 roughness
      in fadd (fmul NdotH2 (fsub a2 (Finite 1))) (Finite 1))"

definition SpecDistribution32_denominator :: "float3_32 \<Rightarrow> float3_32 \<Rightarrow> float32 \<Rightarrow> float32" where
  "SpecDistribution32_denominator n h roughness =
     (let denomToSquare = SpecDistribution32_denomToSquare n h roughness
      in fmul (fmul PI32 denomToSquare) denomToSquare)"

definition SpecDistribution32 :: "float3_32 \<Rightarrow> float3_32 \<Rightarrow> float32 \<Rightarrow> float32" where
  "SpecDistribution32 n h roughness =
     fdiv (SpecDistribution32_a2 roughness) (SpecDistribution32_denominator n h roughness)"

section \<open>Quantities that the statements name\<close>

definition shadowCastersBefore :: "int \<Rightarrow> Light list \<Rightarrow> nat \<Rightarrow> nat" where
  \<comment> \<open>how many of the lights before index \<open>i\<close> have the given type and cast shadows\<close>
  "shadowCastersBefore ty ls i =
     length [k \<leftarrow> [0..<i]. type (ls ! k) = ty \<and> castsShadows (ls ! k)]"


definition retextured ::
  "Resources \<Rightarrow> (float2 \<Rightarrow> float3) \<Rightarrow> (float2 \<Rightarrow> float3) \<Rightarrow> (float2 \<Rightarrow> float)
     \<Rightarrow> (float2 \<Rightarrow> float) \<Rightarrow> Resources" where
  \<comment> \<open>the resources with other albedo, normal, roughness and metallic textures\<close>
  "retextured res A N R M =
     res\<lparr>Albedo := A, NormalMap := N, RoughnessMap := R, MetallicMap := M\<rparr>"

definition float4_of :: "float3 \<Rightarrow> float \<Rightarrow> float4" where
  "float4_of c a = float4 (x3 c) (y3 c) (z3 c) a"

definition composite_claimed :: "float3 \<Rightarrow> float3 \<Rightarrow> float \<Rightarrow> float3 \<Rightarrow> float3 \<Rightarrow> float3" where
  \<comment> \<open>the final colour in the words of claim C5: the gamma-encoded direct lighting, plus
      the indirect diffuse value times the intensity factor, blended with the reflection
      by the weight\<close>
  "composite_claimed direct indirect k reflection weight =
     lerp3 (LightenToGamma direct + indirect * splat3 k) reflection weight"

definition composite_amended ::
  "float3 \<Rightarrow> float3 \<Rightarrow> float3 \<Rightarrow> float \<Rightarrow> float3 \<Rightarrow> float3 \<Rightarrow> float3" where
  \<comment> \<open>the same with the indirect diffuse value also multiplied by the gamma-encoded
      surface colour\<close>
  "composite_amended direct indirect surface k reflection weight =
     lerp3 (LightenToGamma direct + indirect * LightenToGamma surface * splat3 k)
       reflection weight"

section \<open>A sample scene\<close>

text \<open>Concrete inputs, at which the statements below are instantiated.\<close>

definition sample_light :: "int \<Rightarrow> bool \<Rightarrow> Light" where
  "sample_light t c = \<lparr>type = t, direction = float3 0 0 (- 1), range_l = 2,
     position = float3 0 0 0, intensity = 1, color = float3 1 1 1, spotFalloff = 0,
     castsShadows = c\<rparr>"

definition sample_lights :: "Light list" where
  "sample_lights = [sample_light 1 True, sample_light 2 False, sample_light 2 True,
     sample_light 0 True, sample_light 7 True, sample_light 0 False]"

definition sample_faces :: "float3 list" where
  "sample_faces = [float3 1 0 0, float3 (- 1) 0 0, float3 0 1 0, float3 0 (- 1) 0,
                   float3 0 0 1, float3 0 0 (- 1)]"

definition sample_inc :: Includes where
  "sample_inc = \<lparr>MAX_NUM_SHADOW_CASCADES = 4, MAX_NUM_SHADOW_MAPS = 16,
     CalcCascadeIndex = (\<lambda>p n d. 0), cubeFaceDirections = sample_faces\<rparr>"

definition sample_res :: Resources where
  "sample_res = \<lparr>Albedo = (\<lambda>t. float3 1 1 1), NormalMap = (\<lambda>t. float3 0.5 0.5 1),
     RoughnessMap = (\<lambda>t. 0.5), MetallicMap = (\<lambda>t. 0.25),
     ShadowMapsCascade = (\<lambda>p d. 1), ShadowMapsWorld = (\<lambda>p d. 1),
     SkyCubeMap = (\<lambda>v m. float3 1 1 1)\<rparr>"

definition sample_un :: Uninitialised where
  "sample_un = \<lparr>depthFromWorldLights0 = (\<lambda>i. 0), shadowWorldUVs0 = (\<lambda>i. float2 0 0),
     shadowAmountWorld0 = (\<lambda>i. 0)\<rparr>"

definition sample_cb :: "Light list \<Rightarrow> int \<Rightarrow> ExternalData" where
  "sample_cb ls n = \<lparr>colorTint = float4 0 0 0 1, roughnessFlat = 1,
     cameraPosition = float3 0 0 1, lights = ls, uvScale = 1, metallicFlat = 0,
     uvOffset = float2 0 0, skyMipCount = 1, lightCount = n, shadowCountCascade = 2,
     shadowCountWorld = 0, indirectLightIntensity = 1\<rparr>"

definition sample_input :: VertexToPixel where
  "sample_input = \<lparr>screenPosition = float4 0 0 0 1, uv = float2 0 0, normal = float3 0 0 1,
     tangent = float3 1 0 0, worldPosition = float3 0 0 0,
     shadowCascadePositions = (\<lambda>k. if k = 0 then float4 (- 0.99) 0 0.5 1 else float4 0 0 0.5 1),
     shadowWorldPositions = (\<lambda>i. float4 0 0 0.5 1)\<rparr>"

definition zero3_32 :: float3_32 where
  "zero3_32 = float3_32 (Finite 0) (Finite 0) (Finite 0)"

definition unit_z_32 :: float3_32 where
  "unit_z_32 = float3_32 (Finite 0) (Finite 0) (Finite 1)"

definition sample_light32 :: "float32 \<Rightarrow> Light32" where
  "sample_light32 r = \<lparr>type32 = 1, direction32 = float3_32 (Finite 0) (Finite 0) (Finite (- 1)),
     range32 = r, position32 = zero3_32, intensity32 = Finite 1,
     color32 = float3_32 (Finite 1) (Finite 1) (Finite 1), spotFalloff32 = Finite 0\<rparr>"

section \<open>Componentwise arithmetic\<close>

lemma float3_plus [simp]: "float3 a b c + float3 d e f = float3 (a + d) (b + e) (c + f)"
  by (simp add: plus_float3_def)

lemma float3_minus [simp]: "float3 a b c - float3 d e f = float3 (a - d) (b - e) (c - f)"
  by (simp add: minus_float3_def)

lemma float3_times [simp]: "float3 a b c * float3 d e f = float3 (a * d) (b * e) (c * f)"
  by (simp add: times_float3_def)

lemma float3_uminus [simp]: "- float3 a b c = float3 (- a) (- b) (- c)"
  by (simp add: uminus_float3_def)

lemma float3_divide [simp]: "float3 a b c / float3 d e f = float3 (a / d) (b / e) (c / f)"
  by (simp add: divide_float3_def)

lemma sel_plus [simp]:
  "x3 (a + b) = x3 a + x3 b" "y3 (a + b) = y3 a + y3 b" "z3 (a + b) = z3 a + z3 b"
  by (simp_all add: plus_float3_def)

lemma sel_minus [simp]:
  "x3 (a - b) = x3 a - x3 b" "y3 (a - b) = y3 a - y3 b" "z3 (a - b) = z3 a - z3 b"
  by (simp_all add: minus_float3_def)

lemma sel_times [simp]:
  "x3 (a * b) = x3 a * x3 b" "y3 (a * b) = y3 a * y3 b" "z3 (a * b) = z3 a * z3 b"
  by (simp_all add: times_float3_def)

lemma sel_divide [simp]:
  "x3 (a / b) = x3 a / x3 b" "y3 (a / b) = y3 a / y3 b" "z3 (a / b) = z3 a / z3 b"
  by (simp_all add: divide_float3_def)

lemma sel_splat3 [simp]: "x3 (splat3 s) = s" "y3 (splat3 s) = s" "z3 (splat3 s) = s"
  by (simp_all add: splat3_def)

lemma dot_float3 [simp]: "dot (float3 a b c) (float3 d e f) = a * d + b * e + c * f"
  by (simp add: dot_def)

lemma saturate_range: "0 \<le> saturate v \<and> saturate v \<le> 1"
  by (simp add: saturate_def)

lemma light_types_distinct:
  "LIGHT_TYPE_SPOT \<noteq> LIGHT_TYPE_POINT" "LIGHT_TYPE_POINT \<noteq> LIGHT_TYPE_SPOT"
  "LIGHT_TYPE_SPOT \<noteq> LIGHT_TYPE_DIRECTIONAL" "LIGHT_TYPE_DIRECTIONAL \<noteq> LIGHT_TYPE_SPOT"
  "LIGHT_TYPE_POINT \<noteq> LIGHT_TYPE_DIRECTIONAL" "LIGHT_TYPE_DIRECTIONAL \<noteq> LIGHT_TYPE_POINT"
  by (simp_all add: LIGHT_TYPE_SPOT_def LIGHT_TYPE_POINT_def LIGHT_TYPE_DIRECTIONAL_def)

section \<open>Rounding to binary32\<close>

lemma pow2_pos [simp]: "0 < pow2 e"
  by (simp add: pow2_def)

lemma pow2_nonneg [simp]: "0 \<le> pow2 e"
  by (simp add: pow2_def)

lemma pow2_neq0 [simp]: "pow2 e \<noteq> 0"
  by (simp add: pow2_def)

lemma pow2_not_le0 [simp]: "\<not> pow2 e \<le> 0"
  using pow2_pos [of e] by (simp only: not_le)

lemma pow2_add: "pow2 (a + b) = pow2 a * pow2 b"
  by (simp add: pow2_def powr_add)

lemma pow2_diff: "pow2 (a - b) = pow2 a / pow2 b"
  by (simp add: pow2_def powr_diff)

lemma pow2_mono: "a \<le> b \<Longrightarrow> pow2 a \<le> pow2 b"
  by (simp add: pow2_def)

lemma pow2_less: "a < b \<Longrightarrow> pow2 a < pow2 b"
  by (simp add: pow2_def)

lemma pow2_less_iff [simp]: "pow2 a < pow2 b \<longleftrightarrow> a < b"
  by (simp add: pow2_def)

lemma pow2_le_iff [simp]: "pow2 a \<le> pow2 b \<longleftrightarrow> a \<le> b"
  by (simp add: pow2_def)

lemma pow2_nat: "pow2 (int n) = 2 ^ n"
  by (simp add: pow2_def powr_realpow)

lemma pow2_0 [simp]: "pow2 0 = 1"
  by (simp add: pow2_def)

lemma pow2_numeral: "pow2 (numeral k) = 2 ^ numeral k"
  using pow2_nat [of "numeral k"] by simp

lemma pow2_neg_numeral: "pow2 (- numeral k) = 1 / 2 ^ numeral k"
proof -
  have "pow2 (- numeral k) = 1 / pow2 (numeral k)"
    using pow2_diff [of 0 "numeral k"] by simp
  then show ?thesis by (simp add: pow2_numeral)
qed

lemma pow2_int: "0 \<le> e \<Longrightarrow> pow2 e = of_int (2 ^ nat e)"
  using pow2_nat [of "nat e"] by simp

lemma rhe_of_int [simp]: "round_half_even (of_int k) = k"
  by (simp add: round_half_even_def)

lemma rhe_bounds: "\<lfloor>y\<rfloor> \<le> round_half_even y \<and> round_half_even y \<le> \<lfloor>y\<rfloor> + 1"
  by (simp add: round_half_even_def Let_def)

lemma rhe_mono: "x \<le> y \<Longrightarrow> round_half_even x \<le> round_half_even y"
proof -
  assume xy: "x \<le> y"
  have fl: "\<lfloor>x\<rfloor> \<le> \<lfloor>y\<rfloor>" using xy by (rule floor_mono)
  show ?thesis
  proof (cases "\<lfloor>x\<rfloor> = \<lfloor>y\<rfloor>")
    case True
    then show ?thesis using xy by (auto simp: round_half_even_def Let_def)
  next
    case False
    then have "\<lfloor>x\<rfloor> + 1 \<le> \<lfloor>y\<rfloor>" using fl by simp
    then show ?thesis using rhe_bounds [of x] rhe_bounds [of y] by linarith
  qed
qed

lemma rhe_eq:
  assumes "\<lfloor>y\<rfloor> = f" and "y = of_int f + t"
  shows "round_half_even y =
     (if t < 1 / 2 then f else if 1 / 2 < t then f + 1 else if even f then f else f + 1)"
  using assms by (simp add: round_half_even_def Let_def)

lemma rhe_neg: "round_half_even (- y) = - round_half_even y"
proof (cases "y = of_int \<lfloor>y\<rfloor>")
  case True
  then obtain k :: int where "y = of_int k" by metis
  then show ?thesis using rhe_of_int [of "- k"] by simp
next
  case False
  define f where "f = \<lfloor>y\<rfloor>"
  define t where "t = y - of_int f"
  have c: "\<lceil>y\<rceil> = f + 1" using False by (simp add: ceiling_altdef f_def)
  have "\<lfloor>- y\<rfloor> = - \<lceil>y\<rceil>" by (simp add: ceiling_def)
  then have fl: "\<lfloor>- y\<rfloor> = - f - 1" using c by simp
  have y: "y = of_int f + t" by (simp add: t_def)
  have ny: "- y = of_int (- f - 1) + (1 - t)" by (simp add: t_def)
  have A: "round_half_even y =
     (if t < 1 / 2 then f else if 1 / 2 < t then f + 1 else if even f then f else f + 1)"
    using f_def [symmetric] y by (rule rhe_eq)
  have B: "round_half_even (- y) =
     (if 1 - t < 1 / 2 then - f - 1 else if 1 / 2 < 1 - t then - f - 1 + 1
      else if even (- f - 1) then - f - 1 else - f - 1 + 1)"
    using fl ny by (rule rhe_eq)
  consider "t < 1 / 2" | "1 / 2 < t" | "t = 1 / 2" by linarith
  then show ?thesis
  proof cases
    case 1
    then show ?thesis unfolding A B by simp
  next
    case 2
    then show ?thesis unfolding A B by simp
  next
    case 3
    then show ?thesis unfolding A B by simp
  qed
qed

lemma rhe_abs_le: "\<bar>y\<bar> < of_int n \<Longrightarrow> \<bar>round_half_even y\<bar> \<le> n"
proof -
  assume a: "\<bar>y\<bar> < of_int n"
  have u: "y \<le> of_int n" and l: "of_int (- n) \<le> y" using a by auto
  have "round_half_even y \<le> round_half_even (of_int n)" using u by (rule rhe_mono)
  moreover have "round_half_even (of_int (- n)) \<le> round_half_even y" using l by (rule rhe_mono)
  ultimately have "round_half_even y \<le> n" "- n \<le> round_half_even y"
    unfolding rhe_of_int by simp_all
  then show ?thesis by simp
qed

lemma rhe_nonneg: "0 \<le> y \<Longrightarrow> 0 \<le> round_half_even y"
  using rhe_mono [of 0 y] rhe_of_int [of 0] by simp


lemma binade_bounds:
  assumes "x \<noteq> 0"
  shows "pow2 (binade x) \<le> \<bar>x\<bar>" and "\<bar>x\<bar> < pow2 (binade x + 1)"
proof -
  have "0 < \<bar>x\<bar>" using assms by simp
  then have "2 powr (of_int (binade x)) \<le> \<bar>x\<bar> \<and> \<bar>x\<bar> < 2 powr (of_int (binade x + 1))"
    using floor_log_eq_powr_iff [of "\<bar>x\<bar>" 2 "binade x"] by (simp add: binade_def)
  then show "pow2 (binade x) \<le> \<bar>x\<bar>" and "\<bar>x\<bar> < pow2 (binade x + 1)"
    by (simp_all add: pow2_def)
qed

lemma binade_eq:
  assumes "pow2 k \<le> \<bar>x\<bar>" and "\<bar>x\<bar> < pow2 (k + 1)"
  shows "binade x = k"
proof -
  have "0 < \<bar>x\<bar>" using assms(1) pow2_pos [of k] by linarith
  then show ?thesis
    using floor_log_eq_powr_iff [of "\<bar>x\<bar>" 2 k] assms by (simp add: binade_def pow2_def)
qed

lemma binade_less: "x \<noteq> 0 \<Longrightarrow> \<bar>x\<bar> < pow2 k \<Longrightarrow> binade x < k"
  using binade_bounds(1) [of x] pow2_less_iff [of "binade x" k] by linarith

lemma binade_ge: "pow2 k \<le> \<bar>x\<bar> \<Longrightarrow> k \<le> binade x"
proof -
  assume a: "pow2 k \<le> \<bar>x\<bar>"
  then have "x \<noteq> 0" using pow2_pos [of k] by auto
  then have "pow2 k < pow2 (binade x + 1)" using binade_bounds(2) [of x] a by linarith
  then show ?thesis by simp
qed

lemma quantum_neg [simp]: "quantum (- x) = quantum x"
  by (simp add: quantum_def binade_def)

lemma quantum_ge [simp]: "- 149 \<le> quantum x"
  by (simp add: quantum_def)

lemma rne_0 [simp]: "rne 0 = 0"
  by (simp add: rne_def)

lemma rne_neg: "rne (- x) = - rne x"
  by (simp add: rne_def rhe_neg)

lemma rne_nonneg: "0 \<le> x \<Longrightarrow> 0 \<le> rne x"
  by (simp add: rne_def rhe_nonneg)

lemma rne_nonpos: "x \<le> 0 \<Longrightarrow> rne x \<le> 0"
  using rne_nonneg [of "- x"] by (simp add: rne_neg)

lemma pow2_ratio_int: "a \<le> b \<Longrightarrow> pow2 b / pow2 a = of_int (2 ^ nat (b - a))"
  using pow2_int [of "b - a"] by (simp add: pow2_diff)

text \<open>A multiple of a power of two at or above the quantum is rounded to itself.\<close>

lemma rne_multiple:
  assumes "quantum x \<le> e" and "x = of_int m * pow2 e"
  shows "rne x = x"
proof (cases "x = 0")
  case True
  then show ?thesis by simp
next
  case False
  have "x / pow2 (quantum x) = of_int m * (pow2 e / pow2 (quantum x))"
    by (simp add: assms(2))
  also have "\<dots> = of_int (m * 2 ^ nat (e - quantum x))"
    by (simp add: pow2_ratio_int [OF assms(1)])
  finally have "round_half_even (x / pow2 (quantum x)) = m * 2 ^ nat (e - quantum x)"
    by (simp only: rhe_of_int)
  then have "rne x = of_int (m * 2 ^ nat (e - quantum x)) * pow2 (quantum x)"
    using False by (simp add: rne_def)
  also have "\<dots> = of_int m * (pow2 e / pow2 (quantum x)) * pow2 (quantum x)"
    by (simp add: pow2_ratio_int [OF assms(1)])
  also have "\<dots> = x" by (simp add: assms(2))
  finally show ?thesis .
qed

lemma rne_exact:
  assumes m: "\<bar>m\<bar> < 2 ^ 24" and e: "- 149 \<le> e"
  shows "rne (of_int m * pow2 e) = of_int m * pow2 e"
proof (cases "m = 0")
  case True
  then show ?thesis by simp
next
  case False
  define x where "x = of_int m * pow2 e"
  have x0: "x \<noteq> 0" using False by (simp add: x_def)
  have "\<bar>x\<bar> = of_int \<bar>m\<bar> * pow2 e" by (simp add: x_def abs_mult)
  also have "\<dots> < of_int (2 ^ 24) * pow2 e"
    using m by (intro mult_strict_right_mono) simp_all
  also have "\<dots> = pow2 (e + 24)" using pow2_int [of 24] by (simp add: pow2_add)
  finally have "binade x < e + 24" using x0 by (rule binade_less [rotated])
  then have "quantum x \<le> e" using e by (simp add: quantum_def)
  then show ?thesis unfolding x_def [symmetric] using x_def by (rule rne_multiple)
qed

lemma rne_pow2: "- 149 \<le> e \<Longrightarrow> rne (pow2 e) = pow2 e"
  using rne_exact [of 1 e] by simp

lemma rne_1 [simp]: "rne 1 = 1"
  using rne_pow2 [of 0] by simp

lemma rne_of_int: "\<bar>m\<bar> < 2 ^ 24 \<Longrightarrow> rne (of_int m) = of_int m"
  using rne_exact [of m 0] by simp

lemma rne_mono_pos:
  assumes "0 < x" and "x \<le> y"
  shows "rne x \<le> rne y"
proof -
  have y0: "0 < y" using assms by simp
  have bx: "binade x \<le> binade y"
    using assms by (simp add: binade_def floor_mono)
  then have q: "quantum x \<le> quantum y" by (simp add: quantum_def)
  have rx: "rne x = of_int (round_half_even (x / pow2 (quantum x))) * pow2 (quantum x)"
    using assms(1) by (simp add: rne_def)
  have ry: "rne y = of_int (round_half_even (y / pow2 (quantum y))) * pow2 (quantum y)"
    using y0 by (simp add: rne_def)
  show ?thesis
  proof (cases "quantum x = quantum y")
    case True
    have "x / pow2 (quantum y) \<le> y / pow2 (quantum y)"
      using assms(2) by (simp add: divide_right_mono)
    then have "round_half_even (x / pow2 (quantum y)) \<le> round_half_even (y / pow2 (quantum y))"
      by (rule rhe_mono)
    then show ?thesis unfolding rx ry True by (simp add: mult_right_mono)
  next
    case False
    then have lt: "quantum x < quantum y" using q by simp
    then have qy: "quantum y = binade y - 23" by (simp add: quantum_def max_def split: if_splits)
    have kxy: "binade x < binade y" using lt qy by (simp add: quantum_def max_def split: if_splits)
    have xk: "x < pow2 (binade y)"
    proof -
      have "x < pow2 (binade x + 1)" using binade_bounds(2) [of x] assms(1) by simp
      also have "\<dots> \<le> pow2 (binade y)" using kxy by simp
      finally show ?thesis .
    qed
    have ky: "pow2 (binade y) \<le> y" using binade_bounds(1) [of y] y0 by simp
    have qxk: "quantum x \<le> binade y" using lt qy by simp
    have up: "rne x \<le> pow2 (binade y)"
    proof -
      have "x / pow2 (quantum x) \<le> pow2 (binade y) / pow2 (quantum x)"
        using xk by (simp add: divide_right_mono)
      then have "round_half_even (x / pow2 (quantum x))
                   \<le> round_half_even (pow2 (binade y) / pow2 (quantum x))"
        by (rule rhe_mono)
      also have "\<dots> = 2 ^ nat (binade y - quantum x)"
        by (simp only: pow2_ratio_int [OF qxk] rhe_of_int)
      finally have "(of_int (round_half_even (x / pow2 (quantum x))) :: real)
                      \<le> of_int (2 ^ nat (binade y - quantum x))"
        by (simp only: of_int_le_iff)
      then have "of_int (round_half_even (x / pow2 (quantum x))) * pow2 (quantum x)
                      \<le> of_int (2 ^ nat (binade y - quantum x)) * pow2 (quantum x)"
        using pow2_nonneg by (rule mult_right_mono)
      also have "\<dots> = pow2 (binade y)"
        using pow2_ratio_int [OF qxk] by (simp add: field_simps)
      finally show ?thesis unfolding rx .
    qed
    have qyk: "quantum y \<le> binade y" by (simp add: qy)
    have low: "pow2 (binade y) \<le> rne y"
    proof -
      have "pow2 (binade y) / pow2 (quantum y) \<le> y / pow2 (quantum y)"
        using ky by (simp add: divide_right_mono)
      then have "round_half_even (pow2 (binade y) / pow2 (quantum y))
                   \<le> round_half_even (y / pow2 (quantum y))"
        by (rule rhe_mono)
      then have "2 ^ nat (binade y - quantum y) \<le> round_half_even (y / pow2 (quantum y))"
        by (simp only: pow2_ratio_int [OF qyk] rhe_of_int)
      then have "(of_int (2 ^ nat (binade y - quantum y)) :: real)
                   \<le> of_int (round_half_even (y / pow2 (quantum y)))"
        by (simp only: of_int_le_iff)
      then have le: "of_int (2 ^ nat (binade y - quantum y)) * pow2 (quantum y)
                   \<le> of_int (round_half_even (y / pow2 (quantum y))) * pow2 (quantum y)"
        using pow2_nonneg by (rule mult_right_mono)
      have eq: "of_int (2 ^ nat (binade y - quantum y)) * pow2 (quantum y) = pow2 (binade y)"
        using pow2_ratio_int [OF qyk] by (simp add: field_simps)
      show ?thesis unfolding ry using le unfolding eq .
    qed
    show ?thesis using up low by linarith
  qed
qed

lemma rne_mono: "x \<le> y \<Longrightarrow> rne x \<le> rne y"
proof -
  assume xy: "x \<le> y"
  consider "0 < x" | "x \<le> 0" "0 \<le> y" | "y < 0" using xy by linarith
  then show ?thesis
  proof cases
    case 1
    then show ?thesis using xy by (rule rne_mono_pos)
  next
    case 2
    then show ?thesis using rne_nonpos [of x] rne_nonneg [of y] by linarith
  next
    case 3
    then have "rne (- y) \<le> rne (- x)" using xy by (intro rne_mono_pos) simp_all
    then show ?thesis by (simp add: rne_neg)
  qed
qed

lemma rne_idem: "rne (rne x) = rne x"
proof (cases "x = 0")
  case True
  then show ?thesis by simp
next
  case False
  define q where "q = quantum x"
  define r where "r = round_half_even (x / pow2 q)"
  have rx: "rne x = of_int r * pow2 q" using False by (simp add: rne_def r_def q_def)
  have "\<bar>x\<bar> < pow2 (binade x + 1)" using binade_bounds(2) [OF False] .
  also have "\<dots> \<le> pow2 (q + 24)" by (simp add: q_def quantum_def)
  finally have "\<bar>x\<bar> / pow2 q < pow2 (q + 24) / pow2 q"
    by (simp add: divide_strict_right_mono)
  then have "\<bar>x / pow2 q\<bar> < of_int (2 ^ 24)"
    using pow2_int [of 24] by (simp add: pow2_add)
  then have rb: "\<bar>r\<bar> \<le> 2 ^ 24" unfolding r_def by (rule rhe_abs_le)
  have qe: "- 149 \<le> q" by (simp add: q_def)
  show ?thesis
  proof (cases "\<bar>r\<bar> < 2 ^ 24")
    case True
    then show ?thesis unfolding rx using qe by (rule rne_exact)
  next
    case False
    then have "\<bar>r\<bar> = 2 ^ 24" using rb by simp
    then consider "r = 2 ^ 24" | "r = - (2 ^ 24)" by linarith
    then show ?thesis
    proof cases
      case 1
      then have "of_int r * pow2 q = of_int 1 * pow2 (q + 24)"
        using pow2_int [of 24] by (simp add: pow2_add)
      moreover have "rne (of_int 1 * pow2 (q + 24)) = of_int 1 * pow2 (q + 24)"
        using qe by (intro rne_exact) simp_all
      ultimately show ?thesis unfolding rx by simp
    next
      case 2
      then have "of_int r * pow2 q = of_int (- 1) * pow2 (q + 24)"
        using pow2_int [of 24] by (simp add: pow2_add)
      moreover have "rne (of_int (- 1) * pow2 (q + 24)) = of_int (- 1) * pow2 (q + 24)"
        using qe by (intro rne_exact) simp_all
      ultimately show ?thesis unfolding rx by simp
    qed
  qed
qed

lemma rne_eval:
  assumes "pow2 k \<le> \<bar>x\<bar>" and "\<bar>x\<bar> < pow2 (k + 1)"
  shows "rne x = of_int (round_half_even (x / pow2 (max (k - 23) (- 149))))
                   * pow2 (max (k - 23) (- 149))"
proof -
  have "x \<noteq> 0" using assms(1) pow2_pos [of k] by auto
  moreover have "quantum x = max (k - 23) (- 149)"
    using binade_eq [OF assms] by (simp add: quantum_def)
  ultimately show ?thesis by (simp add: rne_def)
qed

lemma round32_0 [simp]: "round32 0 = Finite 0"
  by (simp add: round32_def)

lemma round32_1 [simp]: "round32 1 = Finite 1"
  by (simp add: round32_def)

lemma round32_cases:
  obtains "round32 x = PosInf" "2 ^ 128 \<le> rne x"
  | "round32 x = NegInf" "rne x \<le> - (2 ^ 128)"
  | "round32 x = Finite (rne x)" "- (2 ^ 128) < rne x" "rne x < 2 ^ 128"
  by (cases "2 ^ 128 \<le> rne x"; cases "rne x \<le> - (2 ^ 128)") (auto simp: round32_def Let_def)

lemma round32_between:
  assumes "rne lo = lo" and "rne hi = hi" and "- (2 ^ 128) < lo" and "hi < 2 ^ 128"
    and "lo \<le> x" and "x \<le> hi"
  shows "round32 x = Finite (rne x) \<and> lo \<le> rne x \<and> rne x \<le> hi"
proof -
  have "rne lo \<le> rne x" "rne x \<le> rne hi" using assms(5,6) by (auto intro: rne_mono)
  then have "lo \<le> rne x" "rne x \<le> hi" using assms(1,2) by simp_all
  then show ?thesis using assms(3,4) by (simp add: round32_def Let_def)
qed

lemma round32_nonneg:
  assumes "0 \<le> x"
  obtains "round32 x = PosInf" | "round32 x = Finite (rne x)" "0 \<le> rne x"
  using rne_nonneg [OF assms] by (cases x rule: round32_cases) auto

lemma round32_ge:
  assumes "rne lo = lo" and "0 \<le> lo" and "lo \<le> x"
  obtains "round32 x = PosInf" | "round32 x = Finite (rne x)" "lo \<le> rne x"
proof -
  have "rne lo \<le> rne x" using assms(3) by (rule rne_mono)
  then have "lo \<le> rne x" using assms(1) by simp
  then show ?thesis using that assms(2) by (cases x rule: round32_cases) auto
qed

lemma saturate32_range: "\<exists>s. saturate32 q = Finite s \<and> 0 \<le> s \<and> s \<le> 1"
  by (cases q) auto

lemma pow2_1 [simp]: "pow2 1 = 2"
  by (simp add: pow2_def)

lemma round32_eval:
  assumes "pow2 k \<le> \<bar>x\<bar>" and "\<bar>x\<bar> < pow2 (k + 1)" and "q = max (k - 23) (- 149)"
    and "round_half_even (x / pow2 q) = m" and "\<bar>of_int m * pow2 q\<bar> < 2 ^ 128"
  shows "round32 x = Finite (of_int m * pow2 q)"
proof -
  have "rne x = of_int m * pow2 q"
    using rne_eval [OF assms(1,2)] assms(3,4) by simp
  then show ?thesis using assms(5) by (simp add: round32_def Let_def abs_less_iff)
qed

lemma round32_exact:
  assumes "\<bar>m\<bar> < 2 ^ 24" and "- 149 \<le> e" and "e \<le> 104"
  shows "round32 (of_int m * pow2 e) = Finite (of_int m * pow2 e)"
proof -
  have "\<bar>of_int m * pow2 e\<bar> = of_int \<bar>m\<bar> * pow2 e" by (simp add: abs_mult)
  also have "\<dots> < of_int (2 ^ 24) * pow2 e"
    using assms(1) by (intro mult_strict_right_mono) simp_all
  also have "\<dots> = pow2 (e + 24)" using pow2_int [of 24] by (simp add: pow2_add)
  also have "\<dots> \<le> pow2 128" using assms(3) by simp
  finally have "\<bar>of_int m * pow2 e\<bar> < 2 ^ 128" using pow2_int [of 128] by simp
  then show ?thesis using rne_exact [OF assms(1,2)] by (simp add: round32_def Let_def abs_less_iff)
qed

lemma round32_of_int: "\<bar>m\<bar> < 2 ^ 24 \<Longrightarrow> round32 (of_int m) = Finite (of_int m)"
  using round32_exact [of m 0] by simp

lemma round32_small_numeral [simp]:
  "round32 2 = Finite 2" "round32 4 = Finite 4"
  using round32_of_int [of 2] round32_of_int [of 4] by simp_all

lemma rne_tiny:
  assumes "0 \<le> x" and "x \<le> pow2 (- 151)"
  shows "rne x = 0"
proof -
  have "rne (pow2 (- 151)) = of_int (round_half_even (pow2 (- 151) / pow2 (max (- 151 - 23) (- 149))))
          * pow2 (max (- 151 - 23) (- 149))"
    by (rule rne_eval) simp_all
  also have "\<dots> = 0"
    by (simp add: round_half_even_def Let_def pow2_neg_numeral)
  finally have "rne x \<le> 0" using rne_mono [OF assms(2)] by simp
  then show ?thesis using rne_nonneg [OF assms(1)] by simp
qed

lemma MIN_ROUGHNESS32_value: "MIN_ROUGHNESS32 = Finite (14073749 / 2 ^ 47)"
proof -
  have "round32 0.0000001 = Finite (of_int 14073749 * pow2 (- 47))"
    by (rule round32_eval [where k = "- 24"])
       (simp_all add: pow2_neg_numeral round_half_even_def Let_def)
  then show ?thesis by (simp add: MIN_ROUGHNESS32_def pow2_neg_numeral)
qed

lemma PI32_value: "PI32 = Finite (13176795 / 2 ^ 22)"
proof -
  have "round32 3.14159265359 = Finite (of_int 13176795 * pow2 (- 22))"
    by (rule round32_eval [where k = 1])
       (simp_all add: pow2_neg_numeral pow2_numeral round_half_even_def Let_def)
  then show ?thesis by (simp add: PI32_def pow2_neg_numeral)
qed

section \<open>The specular distribution\<close>

lemma MIN_exact: "rne (14073749 / 2 ^ 47) = 14073749 / 2 ^ 47"
  using rne_exact [of 14073749 "- 47"] by (simp add: pow2_neg_numeral)

lemma dot32_unit_z: "dot32 unit_z_32 unit_z_32 = Finite 1"
  by (simp add: dot32_def unit_z_32_def)

lemma round32_ge_disj:
  assumes "rne lo = lo" and "0 \<le> lo" and "lo \<le> x"
  shows "round32 x = PosInf \<or> (round32 x = Finite (rne x) \<and> lo \<le> rne x)"
  by (cases rule: round32_ge [OF assms]) simp_all

lemma a2_form:
  assumes r: "fle (Finite 0) roughness" and fin: "is_finite32 (SpecDistribution32_a2 roughness)"
  obtains y where "SpecDistribution32_a2 roughness = Finite y" "14073749 / 2 ^ 47 \<le> y"
    "rne y = y" "y < 2 ^ 128"
proof (cases roughness)
  case (Finite x)
  have x0: "0 \<le> x * x" by simp
  show ?thesis
  proof (cases rule: round32_nonneg [OF x0])
    case 1
    then show ?thesis using fin Finite
      by (simp add: SpecDistribution32_a2_def MIN_ROUGHNESS32_value)
  next
    case 2
    define a where "a = rne (x * x)"
    have a0: "0 \<le> a * a" by simp
    show ?thesis
    proof (cases rule: round32_cases [of "a * a"])
      case 1
      then show ?thesis using fin Finite 2
        by (simp add: SpecDistribution32_a2_def MIN_ROUGHNESS32_value a_def)
    next
      case 2
      then show ?thesis using rne_nonneg [OF a0] by simp
    next
      case 3
      define z where "z = rne (a * a)"
      have a2: "SpecDistribution32_a2 roughness = Finite (max z (14073749 / 2 ^ 47))"
        using Finite 2 3(1)
        by (simp add: SpecDistribution32_a2_def MIN_ROUGHNESS32_value a_def z_def max_def)
      have "rne (max z (14073749 / 2 ^ 47)) = max z (14073749 / 2 ^ 47)"
        using MIN_exact rne_idem [of "a * a"] by (simp add: max_def z_def)
      moreover have "max z (14073749 / 2 ^ 47) < 2 ^ 128" using 3(3) by (simp add: z_def)
      ultimately show ?thesis using a2 that by simp
    qed
  qed
next
  case PosInf
  then show ?thesis using fin by (simp add: SpecDistribution32_a2_def MIN_ROUGHNESS32_value)
next
  case NegInf
  then show ?thesis using r by simp
next
  case NaN
  then show ?thesis using r by simp
qed

lemma a2_finite_on_unit_interval:
  assumes "fle (Finite 0) roughness" and "fle roughness (Finite 1)"
  shows "is_finite32 (SpecDistribution32_a2 roughness)"
proof -
  obtain x where x: "roughness = Finite x" "0 \<le> x" "x \<le> 1"
    using assms by (cases roughness) auto
  have "x * x \<le> 1" using x by (simp add: mult_le_one)
  then have a: "round32 (x * x) = Finite (rne (x * x)) \<and> 0 \<le> rne (x * x) \<and> rne (x * x) \<le> 1"
    by (intro round32_between) simp_all
  define a where "a = rne (x * x)"
  have "a * a \<le> 1" using a by (simp add: mult_le_one a_def)
  moreover have "0 \<le> a * a" by simp
  ultimately have "round32 (a * a) = Finite (rne (a * a)) \<and> 0 \<le> rne (a * a) \<and> rne (a * a) \<le> 1"
    by (intro round32_between) simp_all
  then show ?thesis using a x(1)
    by (simp add: SpecDistribution32_a2_def MIN_ROUGHNESS32_value a_def)
qed

lemma denomToSquare_form:
  assumes y: "rne y = y" "y < 2 ^ 128" "14073749 / 2 ^ 47 \<le> y" and t: "0 \<le> t" "t \<le> 1"
    and c: "c = (if 1 \<le> y then 1 else pow2 (- 24))"
  shows "fadd (fmul (Finite t) (fsub (Finite y) (Finite 1))) (Finite 1) = PosInf
       \<or> (\<exists>d. fadd (fmul (Finite t) (fsub (Finite y) (Finite 1))) (Finite 1) = Finite d \<and> c \<le> d)"
proof -
  define lo :: real where "lo = of_int (- 16777215) * pow2 (- 24)"
  have lo: "rne lo = lo" unfolding lo_def by (rule rne_exact) simp_all
  have lo_val: "lo = - 1 + pow2 (- 24)" by (simp add: lo_def pow2_neg_numeral)
  have lo_gt: "- (2 ^ 128) < lo" by (simp add: lo_def pow2_neg_numeral)
  have y0: "0 < y" using y(3) by simp
  have "pow2 (- 24) \<le> y" using y(3) by (simp add: pow2_neg_numeral)
  then have "lo \<le> y - 1" by (simp add: lo_val)
  then have u: "round32 (y - 1) = Finite (rne (y - 1)) \<and> lo \<le> rne (y - 1) \<and> rne (y - 1) \<le> y"
    using lo y(1,2) lo_gt by (intro round32_between) simp_all
  define u where "u = rne (y - 1)"
  have u': "fsub (Finite y) (Finite 1) = Finite u" "lo \<le> u" "u \<le> y"
    using u by (simp_all add: fsub_def u_def)
  have u1: "0 \<le> u" if "1 \<le> y" using that rne_nonneg [of "y - 1"] by (simp add: u_def)
  have lo_le0: "lo \<le> 0" by (simp add: lo_val pow2_neg_numeral)
  have tu_lo: "lo \<le> t * u"
  proof (cases "0 \<le> u")
    case True
    then have "0 \<le> t * u" using t by simp
    then show ?thesis using lo_le0 by linarith
  next
    case False
    then have "t * u \<ge> 1 * u" using t by (intro mult_right_mono_neg) simp_all
    then show ?thesis using u'(2) by simp
  qed
  have tu_hi: "t * u \<le> y"
  proof (cases "0 \<le> u")
    case True
    then have "t * u \<le> 1 * u" using t by (intro mult_right_mono) simp_all
    then show ?thesis using u'(3) by simp
  next
    case False
    then have "t * u \<le> 0" using t by (simp add: mult_nonneg_nonpos)
    then show ?thesis using y0 by linarith
  qed
  have w: "round32 (t * u) = Finite (rne (t * u)) \<and> lo \<le> rne (t * u) \<and> rne (t * u) \<le> y"
    using lo y(1,2) lo_gt tu_lo tu_hi by (intro round32_between) simp_all
  define w where "w = rne (t * u)"
  have w': "round32 (t * u) = Finite w" "lo \<le> w" using w by (simp_all add: w_def)
  have w1: "0 \<le> w" if "1 \<le> y"
    using u1 [OF that] t by (simp add: w_def rne_nonneg)
  have cw: "c \<le> w + 1"
  proof (cases "1 \<le> y")
    case True
    then show ?thesis using w1 [OF True] by (simp add: c)
  next
    case False
    then show ?thesis using w'(2) by (simp add: c lo_val)
  qed
  have rc: "rne c = c" by (simp add: c rne_pow2)
  have c0: "0 \<le> c" by (simp add: c)
  have sum: "fadd (fmul (Finite t) (fsub (Finite y) (Finite 1))) (Finite 1) = round32 (w + 1)"
    by (simp add: u'(1) w'(1))
  show ?thesis unfolding sum
    using round32_ge_disj [OF rc c0 cw] by auto
qed

lemma denominator_form:
  assumes d: "d = PosInf \<or> (\<exists>x. d = Finite x \<and> c \<le> x)"
    and c: "0 < c" "rne (2 * c) = 2 * c" "rne (2 * c * c) = 2 * c * c"
  shows "fmul (fmul PI32 d) d = PosInf \<or> (\<exists>e. fmul (fmul PI32 d) d = Finite e \<and> 2 * c * c \<le> e)"
proof -
  consider "d = PosInf" | x where "d = Finite x" "c \<le> x" using d by blast
  then show ?thesis
  proof cases
    case 1
    then show ?thesis by (simp add: PI32_value)
  next
    case 2
    have x0: "0 < x" using 2(2) c(1) by linarith
    have "2 * c \<le> 13176795 / 2 ^ 22 * x"
    proof -
      have "2 * c \<le> 2 * x" using 2(2) by simp
      also have "\<dots> \<le> 13176795 / 2 ^ 22 * x" using x0 by (intro mult_right_mono) simp_all
      finally show ?thesis .
    qed
    moreover have "0 \<le> 2 * c" using c(1) by simp
    ultimately consider "round32 (13176795 / 2 ^ 22 * x) = PosInf"
      | "round32 (13176795 / 2 ^ 22 * x) = Finite (rne (13176795 / 2 ^ 22 * x))"
        "2 * c \<le> rne (13176795 / 2 ^ 22 * x)"
      using round32_ge_disj [OF c(2)] by blast
    then show ?thesis
    proof cases
      case 1
      then show ?thesis using 2(1) x0 by (simp add: PI32_value)
    next
      case 2
      note pd = 2
      define e1 where "e1 = rne (13176795 / 2 ^ 22 * x)"
      have "2 * c * c \<le> e1 * x"
        using pd(2) \<open>c \<le> x\<close> c(1) by (intro mult_mono) (simp_all add: e1_def)
      moreover have "0 \<le> 2 * c * c" using c(1) by simp
      ultimately consider "round32 (e1 * x) = PosInf"
        | "round32 (e1 * x) = Finite (rne (e1 * x))" "2 * c * c \<le> rne (e1 * x)"
        using round32_ge_disj [OF c(3)] by blast
      then show ?thesis using pd(1) \<open>d = Finite x\<close> by cases (simp_all add: PI32_value e1_def)
    qed
  qed
qed

lemma quotient_finite:
  assumes den: "den = PosInf \<or> (\<exists>e. den = Finite e \<and> lo \<le> e)"
    and lo: "0 < lo" and y: "0 \<le> y" and hi: "y / lo \<le> hi" "rne hi = hi" "hi < 2 ^ 128"
  shows "\<exists>v. fdiv (Finite y) den = Finite v \<and> 0 \<le> v"
proof -
  consider "den = PosInf" | e where "den = Finite e" "lo \<le> e" using den by blast
  then show ?thesis
  proof cases
    case 1
    then show ?thesis by simp
  next
    case 2
    have e0: "0 < e" using 2(2) lo by linarith
    have "y / e \<le> y / lo" using 2(2) lo y by (simp add: frac_le)
    then have le: "y / e \<le> hi" using hi(1) by linarith
    have ge: "0 \<le> y / e" using y e0 by simp
    have "round32 (y / e) = Finite (rne (y / e)) \<and> 0 \<le> rne (y / e) \<and> rne (y / e) \<le> hi"
      using hi(2,3) ge le by (intro round32_between) simp_all
    then show ?thesis using 2(1) e0 by simp
  qed
qed

text \<open>
  Claim C4, on binary32, amended. Let the roughness be at least 0. If the clamped \<open>a2\<close> is
  finite, which it is for every roughness up to 1, then \<open>a2\<close> is at least \<open>MIN_ROUGHNESS\<close>,
  the denominator of the division in \<open>SpecDistribution\<close> is strictly positive (it may be
  the positive infinity), and the function returns a finite value that is not negative;
  this for all vectors \<open>n\<close> and \<open>h\<close>, unit or not. Roughness 0 is included. For a
  roughness whose fourth power overflows, \<open>a2\<close> is the positive infinity and the statement
  says nothing.
\<close>

theorem SpecDistribution32_denominator_positive:
  assumes r: "fle (Finite 0) roughness"
  shows "(fle roughness (Finite 1) \<longrightarrow> is_finite32 (SpecDistribution32_a2 roughness))
     \<and> (is_finite32 (SpecDistribution32_a2 roughness) \<longrightarrow>
          fle MIN_ROUGHNESS32 (SpecDistribution32_a2 roughness)
        \<and> flt (Finite 0) (SpecDistribution32_denominator n h roughness)
        \<and> is_finite32 (SpecDistribution32 n h roughness)
        \<and> fle (Finite 0) (SpecDistribution32 n h roughness))"
proof (intro conjI impI)
  assume "fle roughness (Finite 1)"
  then show "is_finite32 (SpecDistribution32_a2 roughness)"
    using r by (intro a2_finite_on_unit_interval)
next
  assume fin: "is_finite32 (SpecDistribution32_a2 roughness)"
  obtain y where y: "SpecDistribution32_a2 roughness = Finite y" "14073749 / 2 ^ 47 \<le> y"
    "rne y = y" "y < 2 ^ 128"
    using a2_form [OF r fin] by blast
  obtain s where s: "saturate32 (dot32 n h) = Finite s" "0 \<le> s" "s \<le> 1"
    using saturate32_range by blast
  have "s * s \<le> 1" using s by (simp add: mult_le_one)
  then have t: "round32 (s * s) = Finite (rne (s * s)) \<and> 0 \<le> rne (s * s) \<and> rne (s * s) \<le> 1"
    by (intro round32_between) simp_all
  define t where "t = rne (s * s)"
  define c :: real where "c = (if 1 \<le> y then 1 else pow2 (- 24))"
  have dts: "SpecDistribution32_denomToSquare n h roughness
               = fadd (fmul (Finite t) (fsub (Finite y) (Finite 1))) (Finite 1)"
    using t by (simp add: SpecDistribution32_denomToSquare_def Let_def s(1) y(1) t_def)
  have d: "SpecDistribution32_denomToSquare n h roughness = PosInf
         \<or> (\<exists>x. SpecDistribution32_denomToSquare n h roughness = Finite x \<and> c \<le> x)"
    unfolding dts using y(3,4,2) t c_def by (intro denomToSquare_form) (simp_all add: t_def)
  have c0: "0 < c" by (simp add: c_def)
  have c2: "rne (2 * c) = 2 * c"
  proof (cases "1 \<le> y")
    case True
    then show ?thesis using rne_of_int [of 2] by (simp add: c_def)
  next
    case False
    have "2 * pow2 (- 24) = pow2 (- 23)" by (simp add: pow2_neg_numeral)
    then show ?thesis using False rne_pow2 [of "- 23"] by (simp add: c_def)
  qed
  have c3: "rne (2 * c * c) = 2 * c * c"
  proof (cases "1 \<le> y")
    case True
    then show ?thesis using rne_of_int [of 2] by (simp add: c_def)
  next
    case False
    have "2 * pow2 (- 24) * pow2 (- 24) = pow2 (- 47)" by (simp add: pow2_neg_numeral)
    then show ?thesis using False rne_pow2 [of "- 47"] by (simp add: c_def)
  qed
  have den: "SpecDistribution32_denominator n h roughness = PosInf
         \<or> (\<exists>e. SpecDistribution32_denominator n h roughness = Finite e \<and> 2 * c * c \<le> e)"
    unfolding SpecDistribution32_denominator_def Let_def using d c0 c2 c3 by (rule denominator_form)
  show "fle MIN_ROUGHNESS32 (SpecDistribution32_a2 roughness)"
    using y by (simp add: MIN_ROUGHNESS32_value)
  have cc0: "0 < 2 * c * c" using c0 by simp
  show "flt (Finite 0) (SpecDistribution32_denominator n h roughness)"
    using den cc0 by auto
  have y0: "0 \<le> y" using y(2) by simp
  have "\<exists>v. fdiv (Finite y) (SpecDistribution32_denominator n h roughness) = Finite v \<and> 0 \<le> v"
  proof (cases "1 \<le> y")
    case True
    have "y / (2 * c * c) \<le> y" using True by (simp add: c_def)
    then show ?thesis using den cc0 y0 y(3,4) by (intro quotient_finite) simp_all
  next
    case False
    have lo: "2 * c * c = pow2 (- 47)" using False by (simp add: c_def pow2_neg_numeral)
    have "y / pow2 (- 47) \<le> 1 / pow2 (- 47)" using False by (intro divide_right_mono) simp_all
    also have "\<dots> = pow2 47" using pow2_diff [of 0 "- 47"] by simp
    finally have "y / (2 * c * c) \<le> pow2 47" by (simp add: lo)
    moreover have "rne (pow2 47) = pow2 47" by (rule rne_pow2) simp
    moreover have "pow2 47 < 2 ^ 128" by (simp add: pow2_numeral)
    ultimately show ?thesis using den cc0 y0 by (intro quotient_finite) simp_all
  qed
  then show "is_finite32 (SpecDistribution32 n h roughness)"
    and "fle (Finite 0) (SpecDistribution32 n h roughness)"
    by (auto simp: SpecDistribution32_def y(1))
qed

text \<open>
  At roughness 0 with the half vector aligned to the normal, \<open>a2\<close> is \<open>MIN_ROUGHNESS\<close>,
  \<open>a2 - 1\<close> rounds to \<open>- (1 - 2 ^ (- 23))\<close> and \<open>denomToSquare\<close> is \<open>2 ^ (- 23)\<close>, not
  \<open>MIN_ROUGHNESS\<close>: the denominator is \<open>PI * 2 ^ (- 46)\<close> and the value returned 2239906.75.
\<close>

lemma a2_at_zero: "SpecDistribution32_a2 (Finite 0) = Finite (14073749 / 2 ^ 47)"
  by (simp add: SpecDistribution32_a2_def MIN_ROUGHNESS32_value)

lemma pow2_m1 [simp]: "pow2 (- 1) = 1 / 2"
  using pow2_diff [of 0 1] by simp

lemma a2_minus_one: "round32 (14073749 / 2 ^ 47 - 1) = Finite (of_int (- 16777214) * pow2 (- 24))"
  by (rule round32_eval [where k = "- 1"])
     (simp_all add: pow2_neg_numeral round_half_even_def Let_def)

lemma denomToSquare_at_zero:
  "SpecDistribution32_denomToSquare unit_z_32 unit_z_32 (Finite 0) = Finite (of_int 1 * pow2 (- 23))"
proof -
  have u: "round32 (14073749 / 2 ^ 47 - 1) = Finite (of_int (- 16777214) * pow2 (- 24))"
    by (rule a2_minus_one)
  have w: "round32 (1 * (of_int (- 16777214) * pow2 (- 24))) = Finite (of_int (- 16777214) * pow2 (- 24))"
    unfolding mult_1 by (rule round32_exact) simp_all
  have "of_int (- 16777214) * pow2 (- 24) + 1 = of_int 1 * pow2 (- 23)"
    by (simp add: pow2_neg_numeral)
  moreover have "round32 (of_int 1 * pow2 (- 23)) = Finite (of_int 1 * pow2 (- 23))"
    by (rule round32_exact) simp_all
  ultimately have d: "round32 (of_int (- 16777214) * pow2 (- 24) + 1) = Finite (of_int 1 * pow2 (- 23))"
    by simp
  have "SpecDistribution32_denomToSquare unit_z_32 unit_z_32 (Finite 0)
          = fadd (fmul (Finite 1) (fsub (Finite (14073749 / 2 ^ 47)) (Finite 1))) (Finite 1)"
    by (simp add: SpecDistribution32_denomToSquare_def Let_def dot32_unit_z a2_at_zero)
  also have "\<dots> = fadd (fmul (Finite 1) (Finite (of_int (- 16777214) * pow2 (- 24)))) (Finite 1)"
    unfolding fsub_def fneg.simps fadd.simps using u by simp
  also have "\<dots> = fadd (Finite (of_int (- 16777214) * pow2 (- 24))) (Finite 1)"
    unfolding fmul.simps w ..
  also have "\<dots> = Finite (of_int 1 * pow2 (- 23))"
    unfolding fadd.simps d ..
  finally show ?thesis .
qed

lemma denominator_at_zero:
  "SpecDistribution32_denominator unit_z_32 unit_z_32 (Finite 0) = Finite (of_int 13176795 * pow2 (- 68))"
proof -
  have e1: "13176795 / 2 ^ 22 * (of_int 1 * pow2 (- 23)) = of_int 13176795 * pow2 (- 45)"
    by (simp add: pow2_neg_numeral)
  have r1: "round32 (of_int 13176795 * pow2 (- 45)) = Finite (of_int 13176795 * pow2 (- 45))"
    by (rule round32_exact) simp_all
  have e2: "of_int 13176795 * pow2 (- 45) * (of_int 1 * pow2 (- 23)) = of_int 13176795 * pow2 (- 68)"
    by (simp add: pow2_neg_numeral)
  have r2: "round32 (of_int 13176795 * pow2 (- 68)) = Finite (of_int 13176795 * pow2 (- 68))"
    by (rule round32_exact) simp_all
  show ?thesis
    unfolding SpecDistribution32_denominator_def Let_def denomToSquare_at_zero PI32_value
      fmul.simps e1 r1 e2 r2 ..
qed

lemma SpecDistribution32_at_zero:
  "SpecDistribution32 unit_z_32 unit_z_32 (Finite 0) = Finite (8959627 / 4)"
proof -
  have q: "round32 (14073749 / 2 ^ 47 / (of_int 13176795 * pow2 (- 68))) = Finite (of_int 8959627 * pow2 (- 2))"
    by (rule round32_eval [where k = 21])
       (simp_all add: pow2_neg_numeral pow2_numeral round_half_even_def Let_def)
  have nz: "of_int 13176795 * pow2 (- 68) \<noteq> (0::real)" by simp
  have "SpecDistribution32 unit_z_32 unit_z_32 (Finite 0)
          = fdiv (Finite (14073749 / 2 ^ 47)) (Finite (of_int 13176795 * pow2 (- 68)))"
    unfolding SpecDistribution32_def a2_at_zero denominator_at_zero ..
  also have "\<dots> = round32 (14073749 / 2 ^ 47 / (of_int 13176795 * pow2 (- 68)))"
    using nz by (simp only: fdiv.simps if_False)
  also have "\<dots> = Finite (8959627 / 4)" unfolding q by (simp add: pow2_neg_numeral)
  finally show ?thesis .
qed

theorem SpecDistribution32_denominator_positive_witness:
  "fle (Finite 0) (Finite 0) \<and> fle (Finite 0) (Finite 1)
   \<and> is_finite32 (SpecDistribution32_a2 (Finite 0))
   \<and> fle MIN_ROUGHNESS32 (SpecDistribution32_a2 (Finite 0))
   \<and> flt (Finite 0) (SpecDistribution32_denominator unit_z_32 unit_z_32 (Finite 0))
   \<and> is_finite32 (SpecDistribution32 unit_z_32 unit_z_32 (Finite 0))
   \<and> fle (Finite 0) (SpecDistribution32 unit_z_32 unit_z_32 (Finite 0))
   \<and> dot32 unit_z_32 unit_z_32 = Finite 1
   \<and> SpecDistribution32_denominator unit_z_32 unit_z_32 (Finite 0) = Finite (13176795 / 2 ^ 68)
   \<and> SpecDistribution32 unit_z_32 unit_z_32 (Finite 0) = Finite (8959627 / 4)"
  using SpecDistribution32_denominator_positive [of "Finite 0" unit_z_32 unit_z_32] dot32_unit_z denominator_at_zero
    SpecDistribution32_at_zero
  by (simp add: pow2_neg_numeral)

text \<open>
  The statement for every roughness at least 0, as the claim has it, fails. At roughness
  \<open>10 ^ 10\<close>, a binary32 value, the square of the square overflows: \<open>a2\<close> and the
  denominator are the positive infinity, and the quotient returned is NaN.
\<close>

lemma a2_at_huge: "SpecDistribution32_a2 (Finite (10 ^ 10)) = PosInf"
proof -
  have lo: "rne (pow2 66) = pow2 66" by (rule rne_pow2) simp
  have hi: "rne (pow2 67) = pow2 67" by (rule rne_pow2) simp
  have a: "round32 (10 ^ 10 * 10 ^ 10) = Finite (rne (10 ^ 10 * 10 ^ 10))
         \<and> pow2 66 \<le> rne (10 ^ 10 * 10 ^ 10) \<and> rne (10 ^ 10 * 10 ^ 10) \<le> pow2 67"
    using lo hi by (rule round32_between) (simp_all add: pow2_numeral)
  define a where "a = rne (10 ^ 10 * 10 ^ 10)"
  have a66: "pow2 66 \<le> a" using a by (simp add: a_def)
  have a0: "0 \<le> a" using a66 pow2_nonneg [of 66] by linarith
  have "pow2 66 * pow2 66 \<le> a * a" using a66 a0 by (intro mult_mono) simp_all
  then have "pow2 132 \<le> a * a" using pow2_add [of 66 66] by simp
  then have "rne (pow2 132) \<le> rne (a * a)" by (rule rne_mono)
  moreover have "rne (pow2 132) = pow2 132" by (rule rne_pow2) simp
  ultimately have "2 ^ 128 \<le> rne (a * a)" by (simp add: pow2_numeral)
  then have sq: "round32 (a * a) = PosInf" by (simp add: round32_def Let_def)
  have "fmul (Finite (10 ^ 10)) (Finite (10 ^ 10)) = Finite a"
    unfolding fmul.simps a_def using a by blast
  then show ?thesis
    unfolding SpecDistribution32_a2_def Let_def using sq by (simp add: MIN_ROUGHNESS32_value)
qed

theorem SpecDistribution32_overflow_counterexample:
  "fle (Finite 0) (Finite (10 ^ 10))
   \<and> SpecDistribution32 unit_z_32 unit_z_32 (Finite (10 ^ 10)) = NaN
   \<and> \<not> is_finite32 (SpecDistribution32 unit_z_32 unit_z_32 (Finite (10 ^ 10)))"
proof -
  have "SpecDistribution32_denominator unit_z_32 unit_z_32 (Finite (10 ^ 10)) = PosInf"
    unfolding SpecDistribution32_denominator_def SpecDistribution32_denomToSquare_def Let_def
      a2_at_huge dot32_unit_z
    by (simp add: fsub_def PI32_value)
  then have "SpecDistribution32 unit_z_32 unit_z_32 (Finite (10 ^ 10)) = NaN"
    unfolding SpecDistribution32_def a2_at_huge by simp
  then show ?thesis by simp
qed

section \<open>The colour of one light\<close>

text \<open>
  Claim C6. For a light whose type is \<open>LIGHT_TYPE_SPOT\<close> and all surface inputs,
  \<open>ColorFromLight\<close> returns the zero vector: no case of the switch is written for the
  type, and the default returns zero. So the spot case of the pixel shader's loop over the
  lights leaves the colour total as it is.
\<close>

theorem ColorFromLight_spot_zero:
  "type light = LIGHT_TYPE_SPOT \<Longrightarrow>
   ColorFromLight light N worldPos V surfaceColor specularColor roughness metallic = float3 0 0 0
   \<and> fst (main_lightBody inc res un cb input light (finalColor, shadowIndex)) = finalColor"
proof -
  assume t: "type light = LIGHT_TYPE_SPOT"
  have zero: "ColorFromLight light N' worldPos' V' surfaceColor' specularColor' roughness' metallic'
                = float3 0 0 0"
    for N' worldPos' V' surfaceColor' specularColor' roughness' metallic'
    using t
    by (simp add: ColorFromLight_def LIGHT_TYPE_SPOT_def LIGHT_TYPE_DIRECTIONAL_def
        LIGHT_TYPE_POINT_def)
  have add: "finalColor + float3 0 0 0 * splat3 k = finalColor" for k
    by (cases finalColor) (simp add: splat3_def)
  have "fst (main_lightBody inc res un cb input light (finalColor, shadowIndex)) = finalColor"
    using t
    by (simp add: main_lightBody_def lightBody_def main_unshadowed_def zero add
        light_types_distinct)
  then show ?thesis using zero by simp
qed

theorem ColorFromLight_spot_zero_witness:
  "type (sample_light 2 True) = LIGHT_TYPE_SPOT \<and>
   ColorFromLight (sample_light 2 True) (float3 0 0 1) (float3 0 0 0) (float3 0 0 1)
     (float3 1 1 1) (float3 0.04 0.04 0.04) 1 0 = float3 0 0 0
   \<and> fst (main_lightBody sample_inc sample_res sample_un (sample_cb [] 0) sample_input
             (sample_light 2 True) (float3 1 2 3, 0)) = float3 1 2 3"
proof -
  have t: "type (sample_light 2 True) = LIGHT_TYPE_SPOT"
    by (simp add: sample_light_def LIGHT_TYPE_SPOT_def)
  show ?thesis
    using t ColorFromLight_spot_zero [OF t, of "float3 0 0 1" "float3 0 0 0" "float3 0 0 1"
        "float3 1 1 1" "float3 0.04 0.04 0.04" 1 0 sample_inc sample_res sample_un
        "sample_cb [] 0" sample_input "float3 1 2 3" 0]
    by simp
qed

section \<open>The attenuation of a point light\<close>

lemma one_minus_saturates_to_zero:
  assumes "q = NaN \<or> q = PosInf \<or> (\<exists>v. q = Finite v \<and> 1 \<le> v)"
  shows "saturate32 (fsub (Finite 1) q) = Finite 0"
proof -
  consider "q = NaN" | "q = PosInf" | v where "q = Finite v" "1 \<le> v" using assms by blast
  then show ?thesis
  proof cases
    case 1
    then show ?thesis by (simp add: fsub_def)
  next
    case 2
    then show ?thesis by (simp add: fsub_def)
  next
    case 3
    have "rne (1 - v) \<le> 0" using 3(2) by (intro rne_nonpos) simp
    then show ?thesis
      unfolding 3(1) fsub_def by (cases "1 - v" rule: round32_cases) (auto simp: round32_def Let_def)
  qed
qed

lemma square_quotient_at_least_one:
  assumes r: "0 < r" and d: "r \<le> d"
  shows "fdiv (round32 (d * d)) (round32 (r * r)) = NaN
       \<or> fdiv (round32 (d * d)) (round32 (r * r)) = PosInf
       \<or> (\<exists>v. fdiv (round32 (d * d)) (round32 (r * r)) = Finite v \<and> 1 \<le> v)"
proof -
  have sq: "r * r \<le> d * d" using r d by (simp add: mult_mono)
  have mono: "rne (r * r) \<le> rne (d * d)" using sq by (rule rne_mono)
  have r0: "0 \<le> r * r" and d0: "0 \<le> d * d" by simp_all
  show ?thesis
  proof (cases rule: round32_nonneg [OF r0])
    case 1
    then have "2 ^ 128 \<le> rne (r * r)" by (cases "r * r" rule: round32_cases) simp_all
    then have "round32 (d * d) = PosInf" using mono by (simp add: round32_def Let_def)
    then show ?thesis using 1 by simp
  next
    case 2
    note rr = 2
    show ?thesis
    proof (cases rule: round32_nonneg [OF d0])
      case 1
      then show ?thesis using rr by simp
    next
      case 2
      show ?thesis
      proof (cases "rne (r * r) = 0")
        case True
        then show ?thesis using rr 2 by simp
      next
        case False
        then have pos: "0 < rne (r * r)" using rr(2) by simp
        then have "1 \<le> rne (d * d) / rne (r * r)" using mono by simp
        then have "rne 1 \<le> rne (rne (d * d) / rne (r * r))" by (rule rne_mono)
        then have one: "1 \<le> rne (rne (d * d) / rne (r * r))" by simp
        have "fdiv (round32 (d * d)) (round32 (r * r)) = round32 (rne (d * d) / rne (r * r))"
          using rr 2 False by simp
        then show ?thesis using one
          by (cases "rne (d * d) / rne (r * r)" rule: round32_cases) auto
      qed
    qed
  qed
qed

text \<open>
  Claim C7, on binary32, amended. Let the range of the light be positive. Where the
  distance computed from the light to the shaded position is 0 and the computed square of
  the range is not 0, the attenuation is exactly 1. Where the computed distance is at least
  the range, the attenuation is exactly 0. The square of every range that is at least
  \<open>2 ^ (- 63)\<close> is not 0.
\<close>

theorem Attenuate32_at_zero_and_beyond_range:
  assumes pos: "flt (Finite 0) (range32 light)"
  shows "(distance32 (position32 light) worldPos = Finite 0
            \<and> fmul (range32 light) (range32 light) \<noteq> Finite 0
          \<longrightarrow> Attenuate32 light worldPos = Finite 1)
       \<and> (fle (range32 light) (distance32 (position32 light) worldPos)
          \<longrightarrow> Attenuate32 light worldPos = Finite 0)
       \<and> (fle (Finite (pow2 (- 63))) (range32 light)
          \<longrightarrow> fmul (range32 light) (range32 light) \<noteq> Finite 0)"
proof (intro conjI impI)
  assume a: "distance32 (position32 light) worldPos = Finite 0
            \<and> fmul (range32 light) (range32 light) \<noteq> Finite 0"
  consider "(range32 light) = PosInf" | r where "(range32 light) = Finite r" "0 < r"
    using pos by (cases "range32 light") auto
  then have "fdiv (Finite 0) (fmul (range32 light) (range32 light)) = Finite 0"
  proof cases
    case 1
    then show ?thesis by simp
  next
    case 2
    have "fmul (range32 light) (range32 light) = round32 (r * r)" using 2 by simp
    then show ?thesis using a
      by (cases "r * r" rule: round32_cases) (auto simp: round32_def Let_def)
  qed
  then show "Attenuate32 light worldPos = Finite 1"
    using a by (simp add: Attenuate32_def Let_def fsub_def)
next
  assume le: "fle (range32 light) (distance32 (position32 light) worldPos)"
  define dist where "dist = distance32 (position32 light) worldPos"
  have q: "fdiv (fmul dist dist) (fmul (range32 light) (range32 light)) = NaN
       \<or> fdiv (fmul dist dist) (fmul (range32 light) (range32 light)) = PosInf
       \<or> (\<exists>v. fdiv (fmul dist dist) (fmul (range32 light) (range32 light)) = Finite v \<and> 1 \<le> v)"
  proof (cases "range32 light")
    case (Finite r)
    then have r: "0 < r" using pos by simp
    show ?thesis
    proof (cases dist)
      case (Finite d)
      then have "r \<le> d" using le \<open>range32 light = Finite r\<close> by (simp add: dist_def)
      then show ?thesis
        using square_quotient_at_least_one [OF r] Finite \<open>range32 light = Finite r\<close> by simp
    next
      case PosInf
      have r0: "0 \<le> r * r" by simp
      show ?thesis unfolding PosInf \<open>range32 light = Finite r\<close>
        by (cases rule: round32_nonneg [OF r0]) simp_all
    next
      case NegInf
      then show ?thesis using le \<open>range32 light = Finite r\<close> by (simp add: dist_def)
    next
      case NaN
      then show ?thesis by simp
    qed
  next
    case PosInf
    then have "dist = PosInf \<or> dist = NaN" using le by (cases dist) (simp_all add: dist_def)
    then show ?thesis using PosInf by auto
  next
    case NegInf
    then show ?thesis using pos by simp
  next
    case NaN
    then show ?thesis using pos by simp
  qed
  have "saturate32 (fsub (Finite 1) (fdiv (fmul dist dist) (fmul (range32 light) (range32 light))))
          = Finite 0"
    using q by (rule one_minus_saturates_to_zero)
  then show "Attenuate32 light worldPos = Finite 0"
    by (simp add: Attenuate32_def Let_def dist_def)
next
  assume big: "fle (Finite (pow2 (- 63))) (range32 light)"
  show "fmul (range32 light) (range32 light) \<noteq> Finite 0"
  proof (cases "range32 light")
    case (Finite r)
    then have r: "pow2 (- 63) \<le> r" using big by simp
    have "0 \<le> r" using r pow2_nonneg [of "- 63"] by linarith
    then have "pow2 (- 63) * pow2 (- 63) \<le> r * r" using r by (intro mult_mono) simp_all
    then have "pow2 (- 126) \<le> r * r" by (simp add: pow2_add [symmetric])
    then have "rne (pow2 (- 126)) \<le> rne (r * r)" by (rule rne_mono)
    then have "pow2 (- 126) \<le> rne (r * r)" by (simp add: rne_pow2)
    then have "0 < rne (r * r)" using pow2_pos [of "- 126"] by linarith
    then show ?thesis unfolding Finite
      by (cases "r * r" rule: round32_cases) auto
  next
    case PosInf
    then show ?thesis by simp
  next
    case NegInf
    then show ?thesis using pos by simp
  next
    case NaN
    then show ?thesis using pos by simp
  qed
qed

lemma distance32_same: "distance32 zero3_32 zero3_32 = Finite 0"
  by (simp add: distance32_def length32_def dot32_def vsub32_def zero3_32_def fsub_def)

lemma distance32_two:
  "distance32 zero3_32 (float3_32 (Finite 2) (Finite 0) (Finite 0)) = Finite 2"
  by (simp add: distance32_def length32_def dot32_def vsub32_def zero3_32_def fsub_def)

theorem Attenuate32_at_zero_and_beyond_range_witness:
  "flt (Finite 0) (range32 (sample_light32 (Finite 2)))
   \<and> distance32 (position32 (sample_light32 (Finite 2))) zero3_32 = Finite 0
   \<and> fle (Finite (pow2 (- 63))) (range32 (sample_light32 (Finite 2)))
   \<and> fmul (range32 (sample_light32 (Finite 2))) (range32 (sample_light32 (Finite 2))) \<noteq> Finite 0
   \<and> Attenuate32 (sample_light32 (Finite 2)) zero3_32 = Finite 1
   \<and> fle (range32 (sample_light32 (Finite 2)))
         (distance32 (position32 (sample_light32 (Finite 2))) (float3_32 (Finite 2) (Finite 0) (Finite 0)))
   \<and> Attenuate32 (sample_light32 (Finite 2)) (float3_32 (Finite 2) (Finite 0) (Finite 0)) = Finite 0"
proof -
  have p: "flt (Finite 0) (range32 (sample_light32 (Finite 2)))"
    by (simp add: sample_light32_def)
  have b: "fle (Finite (pow2 (- 63))) (range32 (sample_light32 (Finite 2)))"
    by (simp add: sample_light32_def pow2_neg_numeral)
  have d: "distance32 (position32 (sample_light32 (Finite 2))) zero3_32 = Finite 0"
    by (simp add: sample_light32_def distance32_same)
  have l: "fle (range32 (sample_light32 (Finite 2)))
             (distance32 (position32 (sample_light32 (Finite 2)))
                (float3_32 (Finite 2) (Finite 0) (Finite 0)))"
    by (simp add: sample_light32_def distance32_two)
  show ?thesis
    using p b l d Attenuate32_at_zero_and_beyond_range [OF p, of zero3_32]
      Attenuate32_at_zero_and_beyond_range [OF p, of "float3_32 (Finite 2) (Finite 0) (Finite 0)"]
    by blast
qed

text \<open>
  The statement for every positive range, as the claim has it, fails. For the range \<open>1e-30\<close> the
  square of the range underflows to 0; at distance 0 the quotient is 0 / 0, which is NaN,
  \<open>saturate\<close> makes it 0, and the attenuation is 0 where the claim says 1.
\<close>

lemma tiny_range:
  "\<exists>r. round32 (1 / 10 ^ 30) = Finite r \<and> pow2 (- 100) \<le> r \<and> r \<le> pow2 (- 99)"
proof -
  have "round32 (1 / 10 ^ 30) = Finite (rne (1 / 10 ^ 30)) \<and> pow2 (- 100) \<le> rne (1 / 10 ^ 30)
          \<and> rne (1 / 10 ^ 30) \<le> pow2 (- 99)"
    by (rule round32_between) (simp_all add: rne_pow2, simp_all add: pow2_neg_numeral)
  then show ?thesis by blast
qed

theorem Attenuate32_underflow_counterexample:
  "flt (Finite 0) (range32 (sample_light32 (round32 (1 / 10 ^ 30))))
   \<and> distance32 (position32 (sample_light32 (round32 (1 / 10 ^ 30)))) zero3_32 = Finite 0
   \<and> Attenuate32 (sample_light32 (round32 (1 / 10 ^ 30))) zero3_32 = Finite 0
   \<and> Attenuate32 (sample_light32 (round32 (1 / 10 ^ 30))) zero3_32 \<noteq> Finite 1"
proof -
  obtain r where r: "round32 (1 / 10 ^ 30) = Finite r" "pow2 (- 100) \<le> r" "r \<le> pow2 (- 99)"
    using tiny_range by blast
  have r0: "0 < r" using r(2) pow2_pos [of "- 100"] by linarith
  have "r * r \<le> pow2 (- 99) * pow2 (- 99)" using r(3) r0 by (intro mult_mono) simp_all
  also have "\<dots> = pow2 (- 198)" by (simp add: pow2_add [symmetric])
  also have "\<dots> \<le> pow2 (- 151)" by simp
  finally have "rne (r * r) = 0" by (intro rne_tiny) simp_all
  then have sq: "round32 (r * r) = Finite 0" by (simp add: round32_def)
  have att: "Attenuate32 (sample_light32 (Finite r)) zero3_32 = Finite 0"
    by (simp add: Attenuate32_def Let_def sample_light32_def distance32_same sq fsub_def)
  show ?thesis unfolding r(1) using r0 att distance32_same by (simp add: sample_light32_def)
qed

section \<open>The loop over the lights\<close>

lemma shadowCastersBefore_Suc:
  "shadowCastersBefore ty ls (Suc i) =
     shadowCastersBefore ty ls i + (if type (ls ! i) = ty \<and> castsShadows (ls ! i) then 1 else 0)"
  by (simp add: shadowCastersBefore_def)

lemma snd_lightBody:
  "snd (lightBody F W C U wp l st) =
     snd st + (if castsShadows l then (if type l = LIGHT_TYPE_POINT then 6 else if type l = LIGHT_TYPE_SPOT then 1 else 0) else 0)"
  by (cases st) (simp add: lightBody_def Let_def)

lemma fst_lightBody:
  "type l = LIGHT_TYPE_DIRECTIONAL \<or> type l = LIGHT_TYPE_POINT \<or> type l = LIGHT_TYPE_SPOT \<Longrightarrow>
   fst (lightBody F W C U wp l st) =
     fst st + U l * splat3 (if castsShadows l then
        (if type l = LIGHT_TYPE_POINT then W (snd st + directionIndex_of F wp l)
         else if type l = LIGHT_TYPE_SPOT then W (snd st) else C) else 1)"
  by (cases st) (auto simp add: lightBody_def Let_def LIGHT_TYPE_POINT_def LIGHT_TYPE_SPOT_def LIGHT_TYPE_DIRECTIONAL_def)

lemma lightBody_other:
  "type l \<noteq> LIGHT_TYPE_DIRECTIONAL \<Longrightarrow> type l \<noteq> LIGHT_TYPE_POINT \<Longrightarrow> type l \<noteq> LIGHT_TYPE_SPOT \<Longrightarrow>
   lightBody F W C U wp l st = st"
  by (cases st) (simp add: lightBody_def)

lemma snd_lightLoop:
  "snd (lightLoop (lightBody F W C U wp) ls i) =
     6 * shadowCastersBefore LIGHT_TYPE_POINT ls i + shadowCastersBefore LIGHT_TYPE_SPOT ls i"
proof (induction i)
  case 0
  show ?case by (simp add: shadowCastersBefore_def)
next
  case (Suc i)
  show ?case
    by (simp add: snd_lightBody Suc shadowCastersBefore_Suc LIGHT_TYPE_POINT_def LIGHT_TYPE_SPOT_def)
qed

text \<open>
  Claim C1. In the loop over the lights, the shadow slot index at the start of iteration
  \<open>i\<close> is six times the number of preceding shadow-casting point lights plus the number
  of preceding shadow-casting spot lights. For a light of one of the three types, the
  iteration adds the unshadowed colour of the light times a factor: when the light casts
  shadows, the shadow amount of its type (for a point light the world slot at the slot
  index plus the face offset, for a spot light the world slot at the slot index, for a
  directional light the cascade amount), and 1 otherwise.
\<close>

theorem light_loop_shadow_factor_and_slot:
  "snd (main_lightLoop inc res un cb input i)
     = 6 * shadowCastersBefore LIGHT_TYPE_POINT (lights cb) i
       + shadowCastersBefore LIGHT_TYPE_SPOT (lights cb) i
   \<and> (type (lights cb ! i) = LIGHT_TYPE_DIRECTIONAL \<or> type (lights cb ! i) = LIGHT_TYPE_POINT
        \<or> type (lights cb ! i) = LIGHT_TYPE_SPOT \<longrightarrow>
      fst (main_lightLoop inc res un cb input (Suc i))
        = fst (main_lightLoop inc res un cb input i)
          + main_unshadowed res cb input (lights cb ! i)
            * splat3 (if castsShadows (lights cb ! i) then
                 (if type (lights cb ! i) = LIGHT_TYPE_POINT then
                    main_shadowAmountWorld inc res un cb input
                      (snd (main_lightLoop inc res un cb input i)
                       + directionIndex_of (cubeFaceDirections inc) (worldPosition input) (lights cb ! i))
                  else if type (lights cb ! i) = LIGHT_TYPE_SPOT then
                    main_shadowAmountWorld inc res un cb input (snd (main_lightLoop inc res un cb input i))
                  else main_shadowAmountCascade inc res cb input)
               else 1))"
  unfolding main_lightLoop_def main_lightBody_def
  by (simp add: snd_lightLoop fst_lightBody)

theorem light_loop_shadow_factor_and_slot_witness:
  "snd (main_lightLoop sample_inc sample_res sample_un (sample_cb sample_lights 6) sample_input 2) = 6
   \<and> type (sample_lights ! 2) = LIGHT_TYPE_SPOT
   \<and> fst (main_lightLoop sample_inc sample_res sample_un (sample_cb sample_lights 6) sample_input (Suc 2))
       = fst (main_lightLoop sample_inc sample_res sample_un (sample_cb sample_lights 6) sample_input 2)
         + main_unshadowed sample_res (sample_cb sample_lights 6) sample_input (sample_lights ! 2)
           * splat3 (main_shadowAmountWorld sample_inc sample_res sample_un (sample_cb sample_lights 6) sample_input 6)
   \<and> snd (main_lightLoop sample_inc sample_res sample_un (sample_cb sample_lights 6) sample_input 4) = 7"
proof -
  have l: "lights (sample_cb sample_lights 6) = sample_lights" by (simp add: sample_cb_def)
  have t: "type (sample_lights ! 2) = LIGHT_TYPE_SPOT" "castsShadows (sample_lights ! 2)"
    by (simp_all add: sample_lights_def sample_light_def LIGHT_TYPE_SPOT_def)
  have c2: "shadowCastersBefore LIGHT_TYPE_POINT sample_lights 2 = 1"
           "shadowCastersBefore LIGHT_TYPE_SPOT sample_lights 2 = 0"
    by (simp_all add: shadowCastersBefore_def sample_lights_def sample_light_def eval_nat_numeral
        LIGHT_TYPE_POINT_def LIGHT_TYPE_SPOT_def)
  have c4: "shadowCastersBefore LIGHT_TYPE_POINT sample_lights 4 = 1"
           "shadowCastersBefore LIGHT_TYPE_SPOT sample_lights 4 = 1"
    by (simp_all add: shadowCastersBefore_def sample_lights_def sample_light_def eval_nat_numeral
        LIGHT_TYPE_POINT_def LIGHT_TYPE_SPOT_def)
  show ?thesis
    using light_loop_shadow_factor_and_slot [of sample_inc sample_res sample_un "sample_cb sample_lights 6" sample_input 2]
          light_loop_shadow_factor_and_slot [of sample_inc sample_res sample_un "sample_cb sample_lights 6" sample_input 4, THEN conjunct1]
    by (simp add: l t c2 c4 light_types_distinct)
qed

lemma lightLoop_before:
  "i \<le> k \<Longrightarrow> k \<le> length ls \<Longrightarrow>
   lightLoop body (take k ls @ rest) i = lightLoop body ls i"
  by (induction i) (simp_all add: nth_append)

lemma lightLoop_removed:
  assumes skip: "\<And>st. body (ls ! k) st = st" and k: "k < length ls"
  shows "k \<le> i \<Longrightarrow> Suc i \<le> length ls \<Longrightarrow>
         lightLoop body (take k ls @ drop (Suc k) ls @ rest) i = lightLoop body ls (Suc i)"
proof (induction i)
  case 0
  then have "k = 0" by simp
  then show ?case using skip by simp
next
  case (Suc i)
  show ?case
  proof (cases "k = Suc i")
    case True
    have "lightLoop body (take k ls @ drop (Suc k) ls @ rest) (Suc i) = lightLoop body ls (Suc i)"
      using True k by (intro lightLoop_before) simp_all
    also have "\<dots> = lightLoop body ls (Suc (Suc i))"
      using skip True by simp
    finally show ?thesis .
  next
    case False
    then have ki: "k \<le> i" using Suc.prems by simp
    have ih: "lightLoop body (take k ls @ drop (Suc k) ls @ rest) i = lightLoop body ls (Suc i)"
      using Suc.IH ki Suc.prems by simp
    have nth: "(take k ls @ drop (Suc k) ls @ rest) ! i = ls ! Suc i"
      using ki Suc.prems k by (simp add: nth_append min_def)
    show ?thesis by (simp add: ih nth)
  qed
qed

lemma lights_frame_uv [simp]:
  "main_uv (cb\<lparr>lights := ls, lightCount := c\<rparr>) input = main_uv cb input"
  by (simp add: main_uv_def)

lemma lights_frame_positionToCam [simp]:
  "main_positionToCam (cb\<lparr>lights := ls, lightCount := c\<rparr>) input = main_positionToCam cb input"
  by (simp add: main_positionToCam_def)

lemma lights_frame_view [simp]:
  "main_view (cb\<lparr>lights := ls, lightCount := c\<rparr>) input = main_view cb input"
  by (simp add: main_view_def)

lemma lights_frame_incident [simp]:
  "main_incident (cb\<lparr>lights := ls, lightCount := c\<rparr>) input = main_incident cb input"
  by (simp add: main_incident_def)

lemma lights_frame_normal [simp]:
  "main_normal res (cb\<lparr>lights := ls, lightCount := c\<rparr>) input = main_normal res cb input"
  by (simp add: main_normal_def)

lemma lights_frame_albedo [simp]:
  "main_albedo res (cb\<lparr>lights := ls, lightCount := c\<rparr>) input = main_albedo res cb input"
  by (simp add: main_albedo_def)

lemma lights_frame_roughness [simp]:
  "main_roughness res (cb\<lparr>lights := ls, lightCount := c\<rparr>) input = main_roughness res cb input"
  by (simp add: main_roughness_def)

lemma lights_frame_metallic [simp]:
  "main_metallic res (cb\<lparr>lights := ls, lightCount := c\<rparr>) input = main_metallic res cb input"
  by (simp add: main_metallic_def)

lemma lights_frame_specularColor [simp]:
  "main_specularColor res (cb\<lparr>lights := ls, lightCount := c\<rparr>) input = main_specularColor res cb input"
  by (simp add: main_specularColor_def)

lemma lights_frame_surfaceColor [simp]:
  "main_surfaceColor res (cb\<lparr>lights := ls, lightCount := c\<rparr>) input = main_surfaceColor res cb input"
  by (simp add: main_surfaceColor_def)

lemma lights_frame_reflectColor [simp]:
  "main_reflectColor res (cb\<lparr>lights := ls, lightCount := c\<rparr>) input = main_reflectColor res cb input"
  by (simp add: main_reflectColor_def)

lemma lights_frame_indirectDiffuse [simp]:
  "main_indirectDiffuse res (cb\<lparr>lights := ls, lightCount := c\<rparr>) input = main_indirectDiffuse res cb input"
  by (simp add: main_indirectDiffuse_def)

lemma lights_frame_cascadeIndex [simp]:
  "main_cascadeIndex inc (cb\<lparr>lights := ls, lightCount := c\<rparr>) input = main_cascadeIndex inc cb input"
  by (simp add: main_cascadeIndex_def main_cascadeIndex0_def numShadowCascade_def)

lemma lights_frame_shadowAmountCascade [simp]:
  "main_shadowAmountCascade inc res (cb\<lparr>lights := ls, lightCount := c\<rparr>) input
     = main_shadowAmountCascade inc res cb input"
  by (simp add: main_shadowAmountCascade_def main_shadowCascadeUVs_def main_depthFromCascadeLight_def)

lemma lights_frame_shadowAmountWorld [simp]:
  "main_shadowAmountWorld inc res un (cb\<lparr>lights := ls, lightCount := c\<rparr>) input
     = main_shadowAmountWorld inc res un cb input"
  by (simp add: main_shadowAmountWorld_def numShadowWorld_def)

lemma lights_frame_unshadowed [simp]:
  "main_unshadowed res (cb\<lparr>lights := ls, lightCount := c\<rparr>) input = main_unshadowed res cb input"
  by (rule ext) (simp add: main_unshadowed_def)

lemma lights_frame_lightBody [simp]:
  "main_lightBody inc res un (cb\<lparr>lights := ls, lightCount := c\<rparr>) input = main_lightBody inc res un cb input"
  by (simp add: main_lightBody_def)

lemma main_removed:
  assumes t: "type (lights cb ! k) \<noteq> LIGHT_TYPE_DIRECTIONAL" "type (lights cb ! k) \<noteq> LIGHT_TYPE_POINT"
             "type (lights cb ! k) \<noteq> LIGHT_TYPE_SPOT"
    and k: "k < nat (numLights cb)" and len: "length (lights cb) = nat MAX_NUM_LIGHTS"
    and c: "min c MAX_NUM_LIGHTS = numLights cb - 1"
  shows "main inc res un (cb\<lparr>lights := take k (lights cb) @ drop (Suc k) (lights cb) @ [pad], lightCount := c\<rparr>) input
         = main inc res un cb input"
proof -
  let ?ls = "lights cb" and ?body = "main_lightBody inc res un cb input"
  obtain n where n: "nat (numLights cb) = Suc n" using k by (cases "nat (numLights cb)") simp_all
  have nl: "Suc n \<le> length ?ls" using n len by (simp add: numLights_def)
  have kn: "k \<le> n" using k n by simp
  have n': "nat (numLights cb - 1) = n" using n by simp
  have skip: "\<And>st. ?body (?ls ! k) st = st"
    using t by (simp add: main_lightBody_def lightBody_other)
  have "lightLoop ?body (take k ?ls @ drop (Suc k) ?ls @ [pad]) n = lightLoop ?body ?ls (Suc n)"
    using skip kn nl by (intro lightLoop_removed) simp_all
  then show ?thesis
    by (simp add: main_def main_lightLoop_def numLights_def c [unfolded numLights_def]
        n' [unfolded numLights_def] n [unfolded numLights_def])
qed

text \<open>
  Claim C10. For a light among those the loop iterates whose type is none of the three,
  the iteration leaves the colour total and the shadow slot index as they are, and the
  pixel colour is the one computed with the light removed from the array and the
  number of iterated lights reduced by one (the light count itself, where it is within
  \<open>MAX_NUM_LIGHTS\<close>). The array keeps its size: its last place takes any light.
\<close>

theorem unknown_light_type_ignored:
  assumes "type (lights cb ! k) \<noteq> LIGHT_TYPE_DIRECTIONAL" "type (lights cb ! k) \<noteq> LIGHT_TYPE_POINT"
          "type (lights cb ! k) \<noteq> LIGHT_TYPE_SPOT"
    and "k < nat (numLights cb)" and "length (lights cb) = nat MAX_NUM_LIGHTS"
  shows "main_lightLoop inc res un cb input (Suc k) = main_lightLoop inc res un cb input k
     \<and> main inc res un (cb\<lparr>lights := take k (lights cb) @ drop (Suc k) (lights cb) @ [pad],
                             lightCount := numLights cb - 1\<rparr>) input
         = main inc res un cb input
     \<and> (lightCount cb \<le> MAX_NUM_LIGHTS \<longrightarrow>
         main inc res un (cb\<lparr>lights := take k (lights cb) @ drop (Suc k) (lights cb) @ [pad],
                             lightCount := lightCount cb - 1\<rparr>) input
         = main inc res un cb input)"
proof (intro conjI impI)
  show "main_lightLoop inc res un cb input (Suc k) = main_lightLoop inc res un cb input k"
    using assms(1-3) by (simp add: main_lightLoop_def main_lightBody_def lightBody_other)
next
  have "min (numLights cb - 1) MAX_NUM_LIGHTS = numLights cb - 1"
    by (simp add: numLights_def)
  then show "main inc res un (cb\<lparr>lights := take k (lights cb) @ drop (Suc k) (lights cb) @ [pad],
                             lightCount := numLights cb - 1\<rparr>) input
         = main inc res un cb input"
    using assms by (intro main_removed) simp_all
next
  assume "lightCount cb \<le> MAX_NUM_LIGHTS"
  then have "min (lightCount cb - 1) MAX_NUM_LIGHTS = numLights cb - 1"
    by (simp add: numLights_def)
  then show "main inc res un (cb\<lparr>lights := take k (lights cb) @ drop (Suc k) (lights cb) @ [pad],
                             lightCount := lightCount cb - 1\<rparr>) input
         = main inc res un cb input"
    using assms by (intro main_removed) simp_all
qed

theorem unknown_light_type_ignored_witness:
  "type (lights (sample_cb sample_lights 6) ! 4) \<noteq> LIGHT_TYPE_DIRECTIONAL
   \<and> type (lights (sample_cb sample_lights 6) ! 4) \<noteq> LIGHT_TYPE_POINT
   \<and> type (lights (sample_cb sample_lights 6) ! 4) \<noteq> LIGHT_TYPE_SPOT
   \<and> 4 < nat (numLights (sample_cb sample_lights 6))
   \<and> length (lights (sample_cb sample_lights 6)) = nat MAX_NUM_LIGHTS
   \<and> lightCount (sample_cb sample_lights 6) \<le> MAX_NUM_LIGHTS
   \<and> main_lightLoop sample_inc sample_res sample_un (sample_cb sample_lights 6) sample_input (Suc 4)
       = main_lightLoop sample_inc sample_res sample_un (sample_cb sample_lights 6) sample_input 4
   \<and> main sample_inc sample_res sample_un
        (sample_cb [sample_light 1 True, sample_light 2 False, sample_light 2 True,
                    sample_light 0 True, sample_light 0 False, sample_light 1 True] 5) sample_input
       = main sample_inc sample_res sample_un (sample_cb sample_lights 6) sample_input"
proof -
  have t: "type (lights (sample_cb sample_lights 6) ! 4) \<noteq> LIGHT_TYPE_DIRECTIONAL"
     "type (lights (sample_cb sample_lights 6) ! 4) \<noteq> LIGHT_TYPE_POINT"
     "type (lights (sample_cb sample_lights 6) ! 4) \<noteq> LIGHT_TYPE_SPOT"
    by (simp_all add: sample_cb_def sample_lights_def sample_light_def LIGHT_TYPE_SPOT_def
        LIGHT_TYPE_POINT_def LIGHT_TYPE_DIRECTIONAL_def)
  have n: "4 < nat (numLights (sample_cb sample_lights 6))"
    by (simp add: numLights_def sample_cb_def MAX_NUM_LIGHTS_def)
  have m: "lightCount (sample_cb sample_lights 6) \<le> MAX_NUM_LIGHTS"
    by (simp add: sample_cb_def MAX_NUM_LIGHTS_def)
  have len: "length (lights (sample_cb sample_lights 6)) = nat MAX_NUM_LIGHTS"
    by (simp add: sample_cb_def sample_lights_def MAX_NUM_LIGHTS_def)
  have upd: "(sample_cb sample_lights 6)\<lparr>lights := take 4 (lights (sample_cb sample_lights 6))
        @ drop (Suc 4) (lights (sample_cb sample_lights 6)) @ [sample_light 1 True],
        lightCount := lightCount (sample_cb sample_lights 6) - 1\<rparr>
      = sample_cb [sample_light 1 True, sample_light 2 False, sample_light 2 True,
                    sample_light 0 True, sample_light 0 False, sample_light 1 True] 5"
    by (simp add: sample_cb_def sample_lights_def)
  have main: "main sample_inc sample_res sample_un
        (sample_cb [sample_light 1 True, sample_light 2 False, sample_light 2 True,
                    sample_light 0 True, sample_light 0 False, sample_light 1 True] 5) sample_input
       = main sample_inc sample_res sample_un (sample_cb sample_lights 6) sample_input"
    using unknown_light_type_ignored [of "sample_cb sample_lights 6" 4 sample_inc sample_res sample_un sample_input
               "sample_light 1 True", OF t n len] m
    by (simp only: upd simp_thms)
  have loop: "main_lightLoop sample_inc sample_res sample_un (sample_cb sample_lights 6) sample_input (Suc 4)
       = main_lightLoop sample_inc sample_res sample_un (sample_cb sample_lights 6) sample_input 4"
    using unknown_light_type_ignored [of "sample_cb sample_lights 6" 4 sample_inc sample_res sample_un sample_input
               "sample_light 1 True", OF t n len] by simp
  show ?thesis using t n m len main loop by (simp only: simp_thms)
qed

section \<open>The face of a point light's cube\<close>




lemma diff_nonzero: "(a::float3) \<noteq> b \<Longrightarrow> a - b \<noteq> float3 0 0 0"
  by (cases a; cases b) auto








section \<open>The cascade at the border of a shadow map\<close>

lemma or_all_border:
  "or_all (when_lt4 (float4 u v 0 0) (float4 0.01 0.01 0 0))
          (when_gt4 (float4 u v 0 0) (float4 0.99 0.99 0 0))
     = (if u < 0.01 \<or> u > 0.99 \<or> v < 0.01 \<or> v > 0.99 then 1 else 0)"
  by (simp add: or_all_def when_lt4_def when_gt4_def when_lt_def when_gt_def)

lemma int_of_float_of_int [simp]: "int_of_float (of_int k) = k"
  by (simp add: int_of_float_def)

lemma int_of_float_of_int_plus1 [simp]: "int_of_float (of_int k + 1) = k + 1"
proof -
  have "int_of_float (of_int (k + 1)) = k + 1" by (rule int_of_float_of_int)
  then show ?thesis by simp
qed

lemma main_cascadeIndex_eq:
  "main_cascadeIndex inc cb input =
     (let c0 = main_cascadeIndex0 inc cb input;
          t = shadowUVs (shadowCascadePositions input c0)
      in if (x2 t < 0.01 \<or> x2 t > 0.99 \<or> y2 t < 0.01 \<or> y2 t > 0.99)
            \<and> c0 + 1 < numShadowCascade inc cb
         then c0 + 1 else c0)"
  unfolding main_cascadeIndex_def Let_def or_all_border when_lt_def
  by simp

text \<open>
  Claim C2. Where the shadow coordinates of the pixel in the cascade selected by
  distance lie within 1% of a border (x or y below 0.01 or above 0.99) and the selected
  index plus one is below the number of cascades in use, the cascade index is the
  selected one plus one, and the shadow coordinates, the depth and the comparison sample
  are taken from the position in that next cascade. With coordinates (0.005, 0.5) in
  cascade 0 and two cascades in use the pixel resolves to cascade 1.
\<close>

theorem cascade_border_advances:
  assumes border: "x2 (shadowUVs (shadowCascadePositions input (main_cascadeIndex0 inc cb input))) < 0.01
        \<or> x2 (shadowUVs (shadowCascadePositions input (main_cascadeIndex0 inc cb input))) > 0.99
        \<or> y2 (shadowUVs (shadowCascadePositions input (main_cascadeIndex0 inc cb input))) < 0.01
        \<or> y2 (shadowUVs (shadowCascadePositions input (main_cascadeIndex0 inc cb input))) > 0.99"
    and nxt: "main_cascadeIndex0 inc cb input + 1 < numShadowCascade inc cb"
  shows "main_cascadeIndex inc cb input = main_cascadeIndex0 inc cb input + 1
     \<and> main_shadowCascadeUVs inc cb input
         = shadowUVs (shadowCascadePositions input (main_cascadeIndex0 inc cb input + 1))
     \<and> main_depthFromCascadeLight inc cb input
         = z4 (shadowCascadePositions input (main_cascadeIndex0 inc cb input + 1))
           / w4 (shadowCascadePositions input (main_cascadeIndex0 inc cb input + 1))
     \<and> main_shadowAmountCascade inc res cb input
         = ShadowMapsCascade res
             (float3 (x2 (shadowUVs (shadowCascadePositions input (main_cascadeIndex0 inc cb input + 1))))
                     (y2 (shadowUVs (shadowCascadePositions input (main_cascadeIndex0 inc cb input + 1))))
                     (of_int (main_cascadeIndex0 inc cb input + 1)))
             (z4 (shadowCascadePositions input (main_cascadeIndex0 inc cb input + 1))
              / w4 (shadowCascadePositions input (main_cascadeIndex0 inc cb input + 1)))"
proof -
  have idx: "main_cascadeIndex inc cb input = main_cascadeIndex0 inc cb input + 1"
    using border nxt by (simp add: main_cascadeIndex_eq Let_def)
  show ?thesis
    by (simp add: idx main_shadowCascadeUVs_def main_depthFromCascadeLight_def
        main_shadowAmountCascade_def Let_def)
qed

theorem cascade_border_advances_witness:
  "shadowUVs (shadowCascadePositions sample_input (main_cascadeIndex0 sample_inc (sample_cb [] 0) sample_input))
     = float2 0.005 0.5
   \<and> main_cascadeIndex0 sample_inc (sample_cb [] 0) sample_input = 0
   \<and> numShadowCascade sample_inc (sample_cb [] 0) = 2
   \<and> main_cascadeIndex sample_inc (sample_cb [] 0) sample_input = 1
   \<and> main_shadowCascadeUVs sample_inc (sample_cb [] 0) sample_input = float2 0.5 0.5
   \<and> main_depthFromCascadeLight sample_inc (sample_cb [] 0) sample_input = 0.5"
proof -
  have c0: "main_cascadeIndex0 sample_inc (sample_cb [] 0) sample_input = 0"
    by (simp add: main_cascadeIndex0_def sample_inc_def)
  have n: "numShadowCascade sample_inc (sample_cb [] 0) = 2"
    by (simp add: numShadowCascade_def sample_inc_def sample_cb_def)
  have p0: "shadowUVs (shadowCascadePositions sample_input 0) = float2 0.005 0.5"
    by (simp add: shadowUVs_def sample_input_def Let_def)
  have p1: "shadowUVs (shadowCascadePositions sample_input 1) = float2 0.5 0.5"
    by (simp add: shadowUVs_def sample_input_def Let_def)
  have d1: "z4 (shadowCascadePositions sample_input 1) / w4 (shadowCascadePositions sample_input 1) = 0.5"
    by (simp add: sample_input_def)
  show ?thesis
    using cascade_border_advances [of sample_input sample_inc "sample_cb [] 0" sample_res]
    by (simp add: c0 n p0 p1 d1)
qed

section \<open>Roughness and metalness\<close>

text \<open>
  Claim C8. Roughness and metalness are each selected, not blended: where the flat value
  of the constant buffer is exactly -1 the value is the texture's sample at the
  transformed texture coordinates, and for every other flat value it is the flat value;
  the roughness is then raised to at least \<open>MIN_ROUGHNESS\<close>.
\<close>

theorem roughness_metallic_selector:
  "(roughnessFlat cb = - 1 \<longrightarrow>
      main_roughness res cb input = max (RoughnessMap res (main_uv cb input)) MIN_ROUGHNESS)
   \<and> (roughnessFlat cb \<noteq> - 1 \<longrightarrow>
      main_roughness res cb input = max (roughnessFlat cb) MIN_ROUGHNESS)
   \<and> (metallicFlat cb = - 1 \<longrightarrow>
      main_metallic res cb input = MetallicMap res (main_uv cb input))
   \<and> (metallicFlat cb \<noteq> - 1 \<longrightarrow> main_metallic res cb input = metallicFlat cb)"
  by (simp add: main_roughness_def main_metallic_def Let_def)

theorem roughness_metallic_selector_witness:
  "roughnessFlat (sample_cb [] 0) \<noteq> - 1 \<and> main_roughness sample_res (sample_cb [] 0) sample_input = 1
   \<and> metallicFlat (sample_cb [] 0) \<noteq> - 1 \<and> main_metallic sample_res (sample_cb [] 0) sample_input = 0
   \<and> roughnessFlat ((sample_cb [] 0)\<lparr>roughnessFlat := - 1, metallicFlat := - 1\<rparr>) = - 1
   \<and> main_roughness sample_res ((sample_cb [] 0)\<lparr>roughnessFlat := - 1, metallicFlat := - 1\<rparr>) sample_input = 0.5
   \<and> metallicFlat ((sample_cb [] 0)\<lparr>roughnessFlat := - 1, metallicFlat := - 1\<rparr>) = - 1
   \<and> main_metallic sample_res ((sample_cb [] 0)\<lparr>roughnessFlat := - 1, metallicFlat := - 1\<rparr>) sample_input = 0.25"
  using roughness_metallic_selector [of "sample_cb [] 0" sample_res sample_input]
    roughness_metallic_selector [of "(sample_cb [] 0)\<lparr>roughnessFlat := - 1, metallicFlat := - 1\<rparr>" sample_res sample_input]
  by (simp add: sample_cb_def sample_res_def MIN_ROUGHNESS_def)

section \<open>Texture coordinates\<close>

lemma worldSamplesLoop_cong:
  "ShadowMapsWorld res' = ShadowMapsWorld res \<Longrightarrow>
   worldSamplesLoop res' arrays s n = worldSamplesLoop res arrays s n"
  by (induction n) (simp_all add: Let_def)

lemma retextured_frame:
  assumes "A (main_uv cb input) = Albedo res (main_uv cb input)"
    and "N (main_uv cb input) = NormalMap res (main_uv cb input)"
    and "R (main_uv cb input) = RoughnessMap res (main_uv cb input)"
    and "M (main_uv cb input) = MetallicMap res (main_uv cb input)"
  shows "main_normal (retextured res A N R M) cb input = main_normal res cb input"
    and "main_albedo (retextured res A N R M) cb input = main_albedo res cb input"
    and "main_roughness (retextured res A N R M) cb input = main_roughness res cb input"
    and "main_metallic (retextured res A N R M) cb input = main_metallic res cb input"
  using assms
  by (simp_all add: retextured_def main_normal_def main_albedo_def main_roughness_def main_metallic_def)

lemma retextured_frame2:
  assumes "A (main_uv cb input) = Albedo res (main_uv cb input)"
    and "N (main_uv cb input) = NormalMap res (main_uv cb input)"
    and "R (main_uv cb input) = RoughnessMap res (main_uv cb input)"
    and "M (main_uv cb input) = MetallicMap res (main_uv cb input)"
  shows "main_specularColor (retextured res A N R M) cb input = main_specularColor res cb input"
    and "main_surfaceColor (retextured res A N R M) cb input = main_surfaceColor res cb input"
    and "main_reflectColor (retextured res A N R M) cb input = main_reflectColor res cb input"
    and "main_indirectDiffuse (retextured res A N R M) cb input = main_indirectDiffuse res cb input"
proof -
  note f = retextured_frame [where A=A and N=N and R=R and M=M and res=res and cb=cb and input=input, OF assms]
  show s: "main_specularColor (retextured res A N R M) cb input = main_specularColor res cb input"
    by (simp add: main_specularColor_def f)
  show "main_surfaceColor (retextured res A N R M) cb input = main_surfaceColor res cb input"
    by (simp add: main_surfaceColor_def f)
  show "main_reflectColor (retextured res A N R M) cb input = main_reflectColor res cb input"
    by (simp add: main_reflectColor_def f) (simp add: retextured_def)
  show "main_indirectDiffuse (retextured res A N R M) cb input = main_indirectDiffuse res cb input"
    by (simp add: main_indirectDiffuse_def f s) (simp add: retextured_def)
qed

lemma retextured_lightBody:
  assumes "A (main_uv cb input) = Albedo res (main_uv cb input)"
    and "N (main_uv cb input) = NormalMap res (main_uv cb input)"
    and "R (main_uv cb input) = RoughnessMap res (main_uv cb input)"
    and "M (main_uv cb input) = MetallicMap res (main_uv cb input)"
  shows "main_lightBody inc (retextured res A N R M) un cb input = main_lightBody inc res un cb input"
proof -
  note f = retextured_frame [where A=A and N=N and R=R and M=M and res=res and cb=cb and input=input, OF assms] retextured_frame2 [where A=A and N=N and R=R and M=M and res=res and cb=cb and input=input, OF assms]
  have u: "main_unshadowed (retextured res A N R M) cb input = main_unshadowed res cb input"
    by (rule ext) (simp add: main_unshadowed_def f)
  have w: "main_shadowAmountWorld inc (retextured res A N R M) un cb input
             = main_shadowAmountWorld inc res un cb input"
    unfolding main_shadowAmountWorld_def Let_def
    by (rule worldSamplesLoop_cong) (simp add: retextured_def)
  have c: "main_shadowAmountCascade inc (retextured res A N R M) cb input
             = main_shadowAmountCascade inc res cb input"
    by (simp add: main_shadowAmountCascade_def retextured_def)
  show ?thesis by (simp add: main_lightBody_def u w c)
qed

text \<open>
  Claim C9. For a scale other than zero the shader's texture coordinates are the input
  coordinates divided by the scale, with the x offset subtracted and the y offset added;
  and the pixel colour depends on the albedo, normal, roughness and metallic textures
  through their values at these coordinates only.
\<close>

theorem texture_coordinates_transformed:
  assumes "uvScale cb \<noteq> 0"
  shows "main_uv cb input =
           float2 (x2 (uv input) / uvScale cb - x2 (uvOffset cb))
                  (y2 (uv input) / uvScale cb + y2 (uvOffset cb))
     \<and> (\<forall>A N R M.
          A (main_uv cb input) = Albedo res (main_uv cb input)
          \<and> N (main_uv cb input) = NormalMap res (main_uv cb input)
          \<and> R (main_uv cb input) = RoughnessMap res (main_uv cb input)
          \<and> M (main_uv cb input) = MetallicMap res (main_uv cb input)
          \<longrightarrow> main inc (retextured res A N R M) un cb input = main inc res un cb input)"
proof (intro conjI allI impI)
  show "main_uv cb input =
           float2 (x2 (uv input) / uvScale cb - x2 (uvOffset cb))
                  (y2 (uv input) / uvScale cb + y2 (uvOffset cb))"
    by (simp add: main_uv_def)
next
  fix A N R M
  assume a: "A (main_uv cb input) = Albedo res (main_uv cb input)
          \<and> N (main_uv cb input) = NormalMap res (main_uv cb input)
          \<and> R (main_uv cb input) = RoughnessMap res (main_uv cb input)
          \<and> M (main_uv cb input) = MetallicMap res (main_uv cb input)"
  then have h: "A (main_uv cb input) = Albedo res (main_uv cb input)"
    "N (main_uv cb input) = NormalMap res (main_uv cb input)"
    "R (main_uv cb input) = RoughnessMap res (main_uv cb input)"
    "M (main_uv cb input) = MetallicMap res (main_uv cb input)" by simp_all
  note f = retextured_frame [where A=A and N=N and R=R and M=M and res=res and cb=cb and input=input, OF h] retextured_frame2 [where A=A and N=N and R=R and M=M and res=res and cb=cb and input=input, OF h]
    retextured_lightBody [where A=A and N=N and R=R and M=M and res=res and cb=cb and input=input and inc=inc and un=un, OF h]
  show "main inc (retextured res A N R M) un cb input = main inc res un cb input"
    by (simp add: main_def main_lightLoop_def f)
qed

theorem texture_coordinates_transformed_witness:
  "uvScale ((sample_cb [] 0)\<lparr>uvScale := 2, uvOffset := float2 1 3\<rparr>) \<noteq> 0
   \<and> main_uv ((sample_cb [] 0)\<lparr>uvScale := 2, uvOffset := float2 1 3\<rparr>) (sample_input\<lparr>uv := float2 4 8\<rparr>)
       = float2 1 7
   \<and> main sample_inc (retextured sample_res (\<lambda>t. if t = float2 1 7 then float3 1 1 1 else float3 0 0 0)
            (\<lambda>t. if t = float2 1 7 then float3 0.5 0.5 1 else float3 0 0 0)
            (\<lambda>t. if t = float2 1 7 then 0.5 else 0) (\<lambda>t. if t = float2 1 7 then 0.25 else 1))
        sample_un ((sample_cb [] 0)\<lparr>uvScale := 2, uvOffset := float2 1 3\<rparr>) (sample_input\<lparr>uv := float2 4 8\<rparr>)
       = main sample_inc sample_res
        sample_un ((sample_cb [] 0)\<lparr>uvScale := 2, uvOffset := float2 1 3\<rparr>) (sample_input\<lparr>uv := float2 4 8\<rparr>)"
proof -
  let ?cb = "(sample_cb [] 0)\<lparr>uvScale := 2, uvOffset := float2 1 3\<rparr>"
  let ?in = "sample_input\<lparr>uv := float2 4 8\<rparr>"
  have s: "uvScale ?cb \<noteq> 0" by (simp add: sample_cb_def)
  have u: "main_uv ?cb ?in = float2 1 7"
    using texture_coordinates_transformed [OF s, of ?in sample_res sample_inc sample_un] by (simp add: sample_cb_def sample_input_def)
  have m: "main sample_inc (retextured sample_res (\<lambda>t. if t = float2 1 7 then float3 1 1 1 else float3 0 0 0)
            (\<lambda>t. if t = float2 1 7 then float3 0.5 0.5 1 else float3 0 0 0)
            (\<lambda>t. if t = float2 1 7 then 0.5 else 0) (\<lambda>t. if t = float2 1 7 then 0.25 else 1))
        sample_un ?cb ?in = main sample_inc sample_res sample_un ?cb ?in"
    using texture_coordinates_transformed [OF s, of ?in sample_res sample_inc sample_un, THEN conjunct2, rule_format,
        of "\<lambda>t. if t = float2 1 7 then float3 1 1 1 else float3 0 0 0"
           "\<lambda>t. if t = float2 1 7 then float3 0.5 0.5 1 else float3 0 0 0"
           "\<lambda>t. if t = float2 1 7 then 0.5 else 0" "\<lambda>t. if t = float2 1 7 then 0.25 else 1"]
    by (simp add: u sample_res_def)
  show ?thesis using s u m by simp
qed

section \<open>The final colour\<close>

text \<open>
  Claim C5, amended. The final colour is composed in this order: the accumulated direct
  lighting is gamma-encoded; the indirect diffuse value, multiplied by the gamma-encoded
  surface colour and by the indirect intensity factor, is added; the sum is blended with
  the reflection sample, the weight being the Fresnel term at the view vector and the
  surface normal.
\<close>

theorem final_color_composition:
  "main inc res un cb input =
     float4_of (composite_amended
        (fst (main_lightLoop inc res un cb input (nat (numLights cb))))
        (main_indirectDiffuse res cb input) (main_surfaceColor res cb input)
        (indirectLightIntensity cb) (main_reflectColor res cb input)
        (Fresnel (main_view cb input) (main_normal res cb input) (main_specularColor res cb input)))
       1"
  by (simp add: main_def composite_amended_def float4_of_def Let_def)

text \<open>
  The composition without the factor of the surface colour, as the claim has it, is not
  what the shader computes: in the sample scene with no light and a black tint the
  shader adds no indirect light.
\<close>

lemma sample_normal0: "main_normal0 sample_input = float3 0 0 1"
  by (simp add: main_normal0_def sample_input_def normalize3_def length3_def splat3_def)

lemma sample_tangent: "main_tangent sample_input = float3 1 0 0"
  by (simp add: main_tangent_def sample_normal0 Let_def)
     (simp add: sample_input_def normalize3_def length3_def splat3_def)

lemma sample_uv: "main_uv (sample_cb ls n) sample_input = float2 0 0"
  by (simp add: main_uv_def sample_cb_def sample_input_def)

lemma sample_view: "main_view (sample_cb ls n) sample_input = float3 0 0 1"
  by (simp add: main_view_def main_positionToCam_def sample_cb_def sample_input_def
      normalize3_def length3_def splat3_def)

lemma sample_normal: "main_normal sample_res (sample_cb ls n) sample_input = float3 0 0 1"
  by (simp add: main_normal_def sample_normal0 sample_tangent Let_def)
     (simp add: sample_res_def cross_def mul3x3_def splat3_def normalize3_def length3_def)

lemma sample_albedo: "main_albedo sample_res (sample_cb ls n) sample_input = float3 1 1 1"
  by (simp add: main_albedo_def sample_res_def DarkenToGamma_def pow3_def pow_def)

lemma sample_roughness: "main_roughness sample_res (sample_cb ls n) sample_input = 1"
  by (simp add: main_roughness_def sample_cb_def MIN_ROUGHNESS_def)

lemma sample_metallic: "main_metallic sample_res (sample_cb ls n) sample_input = 0"
  by (simp add: main_metallic_def sample_cb_def)

lemma sample_specularColor:
  "main_specularColor sample_res (sample_cb ls n) sample_input = float3 0.04 0.04 0.04"
  by (simp add: main_specularColor_def sample_albedo sample_metallic lerp3_def splat3_def F0_NON_METAL_def)

lemma sample_surfaceColor:
  "main_surfaceColor sample_res (sample_cb ls n) sample_input = float3 0 0 0"
  by (simp add: main_surfaceColor_def sample_albedo) (simp add: sample_cb_def)

lemma sample_reflectColor:
  "main_reflectColor sample_res (sample_cb ls n) sample_input = float3 1 1 1"
  by (simp add: main_reflectColor_def sample_res_def)

lemma sample_indirectDiffuse:
  "main_indirectDiffuse sample_res (sample_cb ls n) sample_input = float3 0.96 0.96 0.96"
  by (simp add: main_indirectDiffuse_def sample_specularColor sample_metallic Let_def)
     (simp add: sample_res_def DiffuseEnergyConserve_def splat3_def saturate3_def saturate_def)

lemma sample_fresnel: "Fresnel (float3 0 0 1) (float3 0 0 1) f0 = f0"
  by (cases f0) (simp add: Fresnel_def saturate_def pow_def splat3_def)

lemma sample_direct:
  "fst (main_lightLoop sample_inc sample_res sample_un (sample_cb [] 0) sample_input
          (nat (numLights (sample_cb [] 0)))) = float3 0 0 0"
  by (simp add: main_lightLoop_def numLights_def sample_cb_def MAX_NUM_LIGHTS_def)

lemma sample_main:
  "main sample_inc sample_res sample_un (sample_cb [] 0) sample_input = float4 0.04 0.04 0.04 1"
  by (simp add: main_def sample_direct sample_indirectDiffuse sample_surfaceColor sample_reflectColor
      sample_view sample_normal sample_specularColor sample_fresnel Let_def)
     (simp add: LightenToGamma_def pow3_def pow_def lerp3_def splat3_def sample_cb_def)

theorem final_color_claimed_counterexample:
  "main sample_inc sample_res sample_un (sample_cb [] 0) sample_input \<noteq>
     float4_of (composite_claimed
        (fst (main_lightLoop sample_inc sample_res sample_un (sample_cb [] 0) sample_input
               (nat (numLights (sample_cb [] 0)))))
        (main_indirectDiffuse sample_res (sample_cb [] 0) sample_input)
        (indirectLightIntensity (sample_cb [] 0))
        (main_reflectColor sample_res (sample_cb [] 0) sample_input)
        (Fresnel (main_view (sample_cb [] 0) sample_input)
           (main_normal sample_res (sample_cb [] 0) sample_input)
           (main_specularColor sample_res (sample_cb [] 0) sample_input)))
       1"
  by (simp add: sample_main sample_direct sample_indirectDiffuse sample_reflectColor
      sample_view sample_normal sample_specularColor sample_fresnel composite_claimed_def float4_of_def)
     (simp add: LightenToGamma_def pow3_def pow_def lerp3_def splat3_def sample_cb_def)

end
